theory Spec2Isabelle
  imports Complex_Main "HOL-Library.Char_ord" "HOL-Library.List_Lexorder"
begin

section \<open>JSON values and the canonical serializer\<close>

text \<open>
  The numbers of the program are doubles. Every finite double is a rational number, and the
  model takes every rational as a number; comparisons with 0 and 2 and the increment of a
  sequence number are exact on them. (\<^verbatim>\<open>NaN\<close> and the infinities are not in the model:
  \<^verbatim>\<open>JSON.parse\<close> gives no \<^verbatim>\<open>NaN\<close>, and an infinity only for a literal that
  overflows.)
\<close>

type_synonym jsNumber = rat

text \<open>
  The values that reach \<^verbatim>\<open>getCanonicalString\<close> are trees of null, booleans, numbers,
  strings, arrays and string-keyed objects. An object is an association list: the order of
  the list is the insertion order of the keys, which \<^verbatim>\<open>Object.keys\<close> reports. Strings
  are lists of code units below 256, compared unit by unit as JavaScript's default sort
  does.
\<close>

datatype json =
    JNull
  | JBool bool
  | JNum jsNumber
  | JStr string
  | JArr "json list"
  | JObj "(string \<times> json) list"

subsection \<open>\<^verbatim>\<open>JSON.stringify\<close> on primitives\<close>

definition dquote :: char where
  "dquote = CHR 0x22"

definition backslash :: char where
  "backslash = CHR 0x5C"

definition digitChar :: "nat \<Rightarrow> char" where
  "digitChar n = (''0123456789abcdef'') ! (n mod 16)"

definition escapeChar :: "char \<Rightarrow> string" where
  "escapeChar c =
     (if c = CHR 0x08 then [backslash, CHR ''b'']
      else if c = CHR 0x09 then [backslash, CHR ''t'']
      else if c = CHR 0x0A then [backslash, CHR ''n'']
      else if c = CHR 0x0C then [backslash, CHR ''f'']
      else if c = CHR 0x0D then [backslash, CHR ''r'']
      else if c = dquote then [backslash, dquote]
      else if c = backslash then [backslash, backslash]
      else if (of_char c :: nat) < 32
        then [backslash, CHR ''u'', CHR ''0'', CHR ''0'',
              digitChar (of_char c div 16), digitChar (of_char c mod 16)]
      else [c])"

definition stringifyString :: "string \<Rightarrow> string" where
  "stringifyString s = [dquote] @ concat (map escapeChar s) @ [dquote]"

text \<open>
  The text \<^verbatim>\<open>JSON.stringify\<close> gives for a number is the platform's number-to-string
  conversion (shortest digits that read back as the same double, exponent form from
  \<^verbatim>\<open>1e21\<close> on). It is the parameter \<open>numberToString\<close> of the serializer and of every
  function that serializes; nothing below depends on which function it is.
\<close>

text \<open>\<^verbatim>\<open>Array.prototype.join\<close>: the items separated by the separator, nothing around them.\<close>

fun join :: "string \<Rightarrow> string list \<Rightarrow> string" where
  "join sep [] = []"
| "join sep [x] = x"
| "join sep (x # y # ys) = x @ sep @ join sep (y # ys)"

subsection \<open>\<^verbatim>\<open>getCanonicalString\<close>\<close>

text \<open>
  The same function stands in \<^verbatim>\<open>server/index.js\<close> and in \<^verbatim>\<open>client/main.js\<close>.
  For an object it sorts \<^verbatim>\<open>Object.keys(obj)\<close> and emits, for each key of the sorted
  list, the quoted key, a colon and the canonical string of \<^verbatim>\<open>obj[key]\<close>. The lookup
  \<^verbatim>\<open>obj[key]\<close> is \<open>map_of\<close> on the association list.
\<close>

fun getCanonicalString :: "(jsNumber \<Rightarrow> string) \<Rightarrow> json \<Rightarrow> string" where
  "getCanonicalString numberToString JNull = ''null''"
| "getCanonicalString numberToString (JBool b) = (if b then ''true'' else ''false'')"
| "getCanonicalString numberToString (JNum x) = numberToString x"
| "getCanonicalString numberToString (JStr s) = stringifyString s"
| "getCanonicalString numberToString (JArr items) =
     ''['' @ join '','' (map (getCanonicalString numberToString) items) @ '']''"
| "getCanonicalString numberToString (JObj obj) =
     (let sortedKeys = sort (map fst obj);
          values = map (\<lambda>kv. (fst kv, getCanonicalString numberToString (snd kv))) obj;
          keyValuePairs = map (\<lambda>key. stringifyString key @ '':'' @ the (map_of values key)) sortedKeys
      in ''{'' @ join '','' keyValuePairs @ ''}'')"

text \<open>
  Two values are the same up to key insertion order when they agree on every primitive,
  arrays agree item by item in order, and objects have the same keys, each once, with
  values that are again the same up to key insertion order.
\<close>

inductive sameUpToKeyOrder :: "json \<Rightarrow> json \<Rightarrow> bool" where
  sameNull: "sameUpToKeyOrder JNull JNull"
| sameBool: "sameUpToKeyOrder (JBool b) (JBool b)"
| sameNum: "sameUpToKeyOrder (JNum i) (JNum i)"
| sameStr: "sameUpToKeyOrder (JStr s) (JStr s)"
| sameArr: "list_all2 sameUpToKeyOrder xs ys \<Longrightarrow> sameUpToKeyOrder (JArr xs) (JArr ys)"
| sameObj: "distinct (map fst a) \<Longrightarrow> distinct (map fst b) \<Longrightarrow>
            set (map fst a) = set (map fst b) \<Longrightarrow>
            (\<forall>k \<in> set (map fst a). sameUpToKeyOrder (the (map_of a k)) (the (map_of b k))) \<Longrightarrow>
            sameUpToKeyOrder (JObj a) (JObj b)"

section \<open>The game FSM (\<^verbatim>\<open>fsm.js\<close>)\<close>

text \<open>
  A thrown JavaScript exception is a value: \<open>TypeError\<close> for a property read on
  \<^verbatim>\<open>undefined\<close>, \<open>SyntaxError\<close> for \<^verbatim>\<open>JSON.parse\<close> on a non-JSON argument, and
  \<open>Error msg\<close> for \<^verbatim>\<open>throw new Error(msg)\<close>.
\<close>

datatype jsError = TypeError | SyntaxError | Error string

type_synonym Board = "string list list"

record GameState =
  currentState :: string
  board :: Board
  playerX :: string
  playerO :: string

text \<open>
  A move carries two numbers, as the JSDoc of \<^verbatim>\<open>transition\<close> declares them. On the
  server they come out of \<^verbatim>\<open>JSON.parse\<close>, so they need not be whole.
\<close>

record Move =
  rowIndex :: jsNumber
  colIndex :: jsNumber

text \<open>
  The \<^verbatim>\<open>eventData\<close> argument of \<^verbatim>\<open>transition\<close>. The verifier builds it from two
  property reads of a log entry, either of which may yield \<^verbatim>\<open>undefined\<close> (\<open>None\<close>).
\<close>

record EventData =
  move :: "Move option"
  playerId :: "string option"

record TransitionResult =
  newState :: string
  isValidMove :: bool
  newBoard :: "Board option"
  error :: "string option"

definition GAME_STARTING :: string where "GAME_STARTING = ''GAME_STARTING''"
definition PLAYER_X_TURN :: string where "PLAYER_X_TURN = ''PLAYER_X_TURN''"
definition PLAYER_O_TURN :: string where "PLAYER_O_TURN = ''PLAYER_O_TURN''"
definition GAME_OVER_X_WINS :: string where "GAME_OVER_X_WINS = ''GAME_OVER_X_WINS''"
definition GAME_OVER_O_WINS :: string where "GAME_OVER_O_WINS = ''GAME_OVER_O_WINS''"
definition GAME_OVER_DRAW :: string where "GAME_OVER_DRAW = ''GAME_OVER_DRAW''"

definition PLAYER_MOVE_ATTEMPTED :: string where
  "PLAYER_MOVE_ATTEMPTED = ''PLAYER_MOVE_ATTEMPTED''"

text \<open>
  \<^verbatim>\<open>cloneBoard\<close> is \<^verbatim>\<open>JSON.parse(JSON.stringify(board))\<close>: on an array of arrays of
  strings, a copy with the same contents. As a value the copy is the board itself; that the
  copy shares no array with the original is the subject of the store model further down.
\<close>

definition cloneBoard :: "Board \<Rightarrow> Board" where
  "cloneBoard b = map (\<lambda>row. map (\<lambda>cell. cell) row) b"

text \<open>
  \<^verbatim>\<open>board[r][c]\<close> for two array indices: reading a missing row gives \<^verbatim>\<open>undefined\<close>, and
  indexing that throws; reading a missing column of a row gives \<^verbatim>\<open>undefined\<close> (\<open>None\<close>).
\<close>

definition readCell :: "Board \<Rightarrow> nat \<Rightarrow> nat \<Rightarrow> jsError + string option" where
  "readCell b r c =
     (if r < length b
      then Inr (if c < length (b ! r) then Some (b ! r ! c) else None)
      else Inl TypeError)"

text \<open>
  A number used as a property key of an array names an element only when it is a whole
  number that is not negative; \<^verbatim>\<open>board[1.5]\<close> and \<^verbatim>\<open>board[-1]\<close> are \<^verbatim>\<open>undefined\<close>.
  (A whole number too large to be an array index is beyond the length of every array here,
  so the read is \<^verbatim>\<open>undefined\<close> for it as well.)
\<close>

definition arrayIndex :: "jsNumber \<Rightarrow> nat option" where
  "arrayIndex x = (if 0 \<le> x \<and> of_int \<lfloor>x\<rfloor> = x then Some (nat \<lfloor>x\<rfloor>) else None)"

text \<open>\<^verbatim>\<open>board[rowIndex][colIndex]\<close> for the two numbers of a move.\<close>

definition readCellAt :: "Board \<Rightarrow> jsNumber \<Rightarrow> jsNumber \<Rightarrow> jsError + string option" where
  "readCellAt b rowIdx colIdx =
     (case arrayIndex rowIdx of
        None \<Rightarrow> Inl TypeError
      | Some r \<Rightarrow>
          (case arrayIndex colIdx of
             None \<Rightarrow> (if r < length b then Inr None else Inl TypeError)
           | Some c \<Rightarrow> readCell b r c))"

definition winConditions :: "(nat \<times> nat) list list" where
  "winConditions =
     [[(0, 0), (0, 1), (0, 2)],
      [(1, 0), (1, 1), (1, 2)],
      [(2, 0), (2, 1), (2, 2)],
      [(0, 0), (1, 0), (2, 0)],
      [(0, 1), (1, 1), (2, 1)],
      [(0, 2), (1, 2), (2, 2)],
      [(0, 0), (1, 1), (2, 2)],
      [(0, 2), (1, 1), (2, 0)]]"

text \<open>\<^verbatim>\<open>combination.every(([r, c]) => board[r][c] === playerSymbol)\<close>, left to right,
  stopping at the first cell that differs.\<close>

fun everyCell :: "Board \<Rightarrow> string \<Rightarrow> (nat \<times> nat) list \<Rightarrow> jsError + bool" where
  "everyCell b playerSymbol [] = Inr True"
| "everyCell b playerSymbol ((r, c) # rest) =
     (case readCell b r c of
        Inl e \<Rightarrow> Inl e
      | Inr cell \<Rightarrow> if cell = Some playerSymbol then everyCell b playerSymbol rest else Inr False)"

text \<open>\<^verbatim>\<open>winConditions.some(...)\<close>, stopping at the first combination that holds.\<close>

fun someCombination :: "Board \<Rightarrow> string \<Rightarrow> (nat \<times> nat) list list \<Rightarrow> jsError + bool" where
  "someCombination b playerSymbol [] = Inr False"
| "someCombination b playerSymbol (combination # rest) =
     (case everyCell b playerSymbol combination of
        Inl e \<Rightarrow> Inl e
      | Inr holds \<Rightarrow> if holds then Inr True else someCombination b playerSymbol rest)"

definition checkWin :: "Board \<Rightarrow> string \<Rightarrow> jsError + bool" where
  "checkWin b playerSymbol = someCombination b playerSymbol winConditions"

definition checkDraw :: "Board \<Rightarrow> bool" where
  "checkDraw b = list_all (\<lambda>row. list_all (\<lambda>cell. cell \<noteq> []) row) b"

text \<open>\<^verbatim>\<open>newBoard[rowIndex][colIndex] = symbol\<close>, reached only after the same cell of the
  original was read as the empty string, so both numbers are array indices and the row and
  the column exist in the copy.\<close>

definition placeSymbol :: "Board \<Rightarrow> nat \<Rightarrow> nat \<Rightarrow> string \<Rightarrow> Board" where
  "placeSymbol b r c playerSymbol = b[r := (b ! r)[c := playerSymbol]]"

definition invalidResult :: "string \<Rightarrow> string \<Rightarrow> TransitionResult" where
  "invalidResult st msg =
     \<lparr>newState = st, isValidMove = False, newBoard = None, error = Some msg\<rparr>"

definition validResult :: "string \<Rightarrow> Board \<Rightarrow> TransitionResult" where
  "validResult st b = \<lparr>newState = st, isValidMove = True, newBoard = Some b, error = None\<rparr>"

definition noTransition :: "string \<Rightarrow> string \<Rightarrow> TransitionResult" where
  "noTransition event st =
     invalidResult st (''No valid transition for event '' @ event @ '' from state '' @ st @ ''.'')"

definition transition :: "GameState \<Rightarrow> string \<Rightarrow> EventData \<Rightarrow> jsError + TransitionResult" where
  "transition gs event eventData =
     (if event = [] \<or> move eventData = None
      then Inl (Error ''Invalid arguments provided to FSM transition function.'')
      else
        let st = currentState gs;
            r = rowIndex (the (move eventData));
            c = colIndex (the (move eventData))
        in
        if st = PLAYER_X_TURN then
          (if event = PLAYER_MOVE_ATTEMPTED then
             (if playerId eventData \<noteq> Some (playerX gs)
              then Inr (invalidResult st (''Not player X'' @ [CHR 0x27] @ ''s turn.''))
              else if r < 0 \<or> r > 2 \<or> c < 0 \<or> c > 2
              then Inr (invalidResult st ''Invalid move: cell is occupied or out of bounds.'')
              else
                (case readCellAt (board gs) r c of
                   Inl e \<Rightarrow> Inl e
                 | Inr cell \<Rightarrow>
                     if cell \<noteq> Some []
                     then Inr (invalidResult st ''Invalid move: cell is occupied or out of bounds.'')
                     else
                       let newBoardX = placeSymbol (cloneBoard (board gs))
                                         (nat \<lfloor>r\<rfloor>) (nat \<lfloor>c\<rfloor>) ''X''
                       in (case checkWin newBoardX ''X'' of
                             Inl e \<Rightarrow> Inl e
                           | Inr won \<Rightarrow>
                               if won then Inr (validResult GAME_OVER_X_WINS newBoardX)
                               else if checkDraw newBoardX
                               then Inr (validResult GAME_OVER_DRAW newBoardX)
                               else Inr (validResult PLAYER_O_TURN newBoardX))))
           else Inr (noTransition event st))
        else if st = PLAYER_O_TURN then
          (if event = PLAYER_MOVE_ATTEMPTED then
             (if playerId eventData \<noteq> Some (playerO gs)
              then Inr (invalidResult st (''Not player O'' @ [CHR 0x27] @ ''s turn.''))
              else if r < 0 \<or> r > 2 \<or> c < 0 \<or> c > 2
              then Inr (invalidResult st ''Invalid move: cell is occupied or out of bounds.'')
              else
                (case readCellAt (board gs) r c of
                   Inl e \<Rightarrow> Inl e
                 | Inr cell \<Rightarrow>
                     if cell \<noteq> Some []
                     then Inr (invalidResult st ''Invalid move: cell is occupied or out of bounds.'')
                     else
                       let newBoardO = placeSymbol (cloneBoard (board gs))
                                         (nat \<lfloor>r\<rfloor>) (nat \<lfloor>c\<rfloor>) ''O''
                       in (case checkWin newBoardO ''O'' of
                             Inl e \<Rightarrow> Inl e
                           | Inr won \<Rightarrow>
                               if won then Inr (validResult GAME_OVER_O_WINS newBoardO)
                               else if checkDraw newBoardO
                               then Inr (validResult GAME_OVER_DRAW newBoardO)
                               else Inr (validResult PLAYER_X_TURN newBoardO))))
           else Inr (noTransition event st))
        else if st = GAME_OVER_X_WINS \<or> st = GAME_OVER_O_WINS \<or> st = GAME_OVER_DRAW
        then Inr (invalidResult st ''Game is already over.'')
        else Inr (noTransition event st))"

definition getInitialGameState :: "string \<Rightarrow> string \<Rightarrow> GameState" where
  "getInitialGameState playerX_Id playerO_Id =
     \<lparr>currentState = PLAYER_X_TURN,
      board = [[[], [], []], [[], [], []], [[], [], []]],
      playerX = playerX_Id,
      playerO = playerO_Id\<rparr>"

section \<open>The FSM on a store of arrays and objects\<close>

text \<open>
  In JavaScript a board is an array of references to row arrays, and a game state is an
  object holding a reference to its board. To say what \<^verbatim>\<open>transition\<close> writes, the
  store is a list of objects and a reference is an index into it; a new array or object is
  appended. \<^verbatim>\<open>cloneBoard\<close> first reads the whole board (\<^verbatim>\<open>JSON.stringify\<close>) and then
  builds new arrays from what it read (\<^verbatim>\<open>JSON.parse\<close>); the assignment
  \<^verbatim>\<open>newBoard[rowIndex][colIndex] = symbol\<close> overwrites one row array in place. Reads of
  the board go through \<open>readBoard\<close>, the contents of the arrays at that moment. The two
  move branches of the switch differ in the player, the message, the symbol and the two
  resulting states only; they are the one function \<open>attemptMoveS\<close>.
\<close>

datatype heapObject =
    RowObject "string list"
  | BoardObject "nat list"
  | StateObject string nat string string

type_synonym store = "heapObject list"

record TransitionResultS =
  newStateS :: string
  isValidMoveS :: bool
  newBoardS :: "nat option"
  errorS :: "string option"

text \<open>The contents of the row array, of the board and of the game state at a reference;
  \<open>None\<close> when the reference does not lead to objects of these kinds.\<close>

definition readRow :: "store \<Rightarrow> nat \<Rightarrow> string list option" where
  "readRow \<sigma> a =
     (if a < length \<sigma> then (case \<sigma> ! a of RowObject cells \<Rightarrow> Some cells | _ \<Rightarrow> None) else None)"

definition readBoard :: "store \<Rightarrow> nat \<Rightarrow> Board option" where
  "readBoard \<sigma> a =
     (if a < length \<sigma>
      then (case \<sigma> ! a of BoardObject rowRefs \<Rightarrow> those (map (readRow \<sigma>) rowRefs) | _ \<Rightarrow> None)
      else None)"

definition readState :: "store \<Rightarrow> nat \<Rightarrow> GameState option" where
  "readState \<sigma> a =
     (if a < length \<sigma>
      then (case \<sigma> ! a of
              StateObject st boardRef px po \<Rightarrow>
                (case readBoard \<sigma> boardRef of
                   None \<Rightarrow> None
                 | Some b \<Rightarrow> Some \<lparr>currentState = st, board = b, playerX = px, playerO = po\<rparr>)
            | _ \<Rightarrow> None)
      else None)"

text \<open>\<^verbatim>\<open>JSON.parse\<close> of a board's text: three new row arrays and a new array of
  references to them, all at fresh references.\<close>

definition allocBoard :: "store \<Rightarrow> Board \<Rightarrow> nat \<times> store" where
  "allocBoard \<sigma> b =
     (length \<sigma> + length b,
      \<sigma> @ map RowObject b @ [BoardObject [length \<sigma> ..< length \<sigma> + length b]])"

definition cloneBoardS :: "store \<Rightarrow> nat \<Rightarrow> (nat \<times> store) option" where
  "cloneBoardS \<sigma> boardRef =
     (case readBoard \<sigma> boardRef of None \<Rightarrow> None | Some b \<Rightarrow> Some (allocBoard \<sigma> b))"

text \<open>\<^verbatim>\<open>newBoard[r][c] = playerSymbol\<close>: the row array that the board's \<open>r\<close>-th
  reference leads to is overwritten at \<open>c\<close>.\<close>

definition writeCell :: "store \<Rightarrow> nat \<Rightarrow> nat \<Rightarrow> nat \<Rightarrow> string \<Rightarrow> store" where
  "writeCell \<sigma> boardRef r c playerSymbol =
     (if boardRef < length \<sigma> then
        (case \<sigma> ! boardRef of
           BoardObject rowRefs \<Rightarrow>
             (if r < length rowRefs \<and> rowRefs ! r < length \<sigma> then
                (case \<sigma> ! (rowRefs ! r) of
                   RowObject cells \<Rightarrow> \<sigma>[rowRefs ! r := RowObject (cells[c := playerSymbol])]
                 | _ \<Rightarrow> \<sigma>)
              else \<sigma>)
         | _ \<Rightarrow> \<sigma>)
      else \<sigma>)"

definition invalidResultS :: "string \<Rightarrow> string \<Rightarrow> TransitionResultS" where
  "invalidResultS st msg =
     \<lparr>newStateS = st, isValidMoveS = False, newBoardS = None, errorS = Some msg\<rparr>"

definition validResultS :: "string \<Rightarrow> nat \<Rightarrow> TransitionResultS" where
  "validResultS st boardRef =
     \<lparr>newStateS = st, isValidMoveS = True, newBoardS = Some boardRef, errorS = None\<rparr>"

definition attemptMoveS ::
  "store \<Rightarrow> string \<Rightarrow> nat \<Rightarrow> string \<Rightarrow> string \<Rightarrow> string \<Rightarrow> string \<Rightarrow> string \<Rightarrow> EventData
     \<Rightarrow> (jsError + TransitionResultS) \<times> store" where
  "attemptMoveS \<sigma> st boardRef turnPlayer wrongTurn playerSymbol winState nextTurn eventData =
     (let r = rowIndex (the (move eventData));
          c = colIndex (the (move eventData))
      in
      if playerId eventData \<noteq> Some turnPlayer
      then (Inr (invalidResultS st wrongTurn), \<sigma>)
      else if r < 0 \<or> r > 2 \<or> c < 0 \<or> c > 2
      then (Inr (invalidResultS st ''Invalid move: cell is occupied or out of bounds.''), \<sigma>)
      else
        (case readBoard \<sigma> boardRef of
           None \<Rightarrow> (Inl TypeError, \<sigma>)
         | Some b \<Rightarrow>
             (case readCellAt b r c of
                Inl e \<Rightarrow> (Inl e, \<sigma>)
              | Inr cell \<Rightarrow>
                  if cell \<noteq> Some []
                  then (Inr (invalidResultS st
                               ''Invalid move: cell is occupied or out of bounds.''), \<sigma>)
                  else
                    (case cloneBoardS \<sigma> boardRef of
                       None \<Rightarrow> (Inl TypeError, \<sigma>)
                     | Some (newBoardRef, \<sigma>1) \<Rightarrow>
                         let \<sigma>2 = writeCell \<sigma>1 newBoardRef (nat \<lfloor>r\<rfloor>) (nat \<lfloor>c\<rfloor>) playerSymbol
                         in (case readBoard \<sigma>2 newBoardRef of
                               None \<Rightarrow> (Inl TypeError, \<sigma>2)
                             | Some nb \<Rightarrow>
                                 (case checkWin nb playerSymbol of
                                    Inl e \<Rightarrow> (Inl e, \<sigma>2)
                                  | Inr won \<Rightarrow>
                                      if won then (Inr (validResultS winState newBoardRef), \<sigma>2)
                                      else if checkDraw nb
                                      then (Inr (validResultS GAME_OVER_DRAW newBoardRef), \<sigma>2)
                                      else (Inr (validResultS nextTurn newBoardRef), \<sigma>2)))))))"

definition transitionS ::
  "store \<Rightarrow> nat \<Rightarrow> string \<Rightarrow> EventData \<Rightarrow> (jsError + TransitionResultS) \<times> store" where
  "transitionS \<sigma> gsRef event eventData =
     (if event = [] \<or> move eventData = None
      then (Inl (Error ''Invalid arguments provided to FSM transition function.''), \<sigma>)
      else if \<not> gsRef < length \<sigma> then (Inl TypeError, \<sigma>)
      else
        (case \<sigma> ! gsRef of
           StateObject st boardRef px po \<Rightarrow>
             if st = PLAYER_X_TURN then
               (if event = PLAYER_MOVE_ATTEMPTED
                then attemptMoveS \<sigma> st boardRef px (''Not player X'' @ [CHR 0x27] @ ''s turn.'')
                       ''X'' GAME_OVER_X_WINS PLAYER_O_TURN eventData
                else (Inr (invalidResultS st (''No valid transition for event '' @ event
                              @ '' from state '' @ st @ ''.'')), \<sigma>))
             else if st = PLAYER_O_TURN then
               (if event = PLAYER_MOVE_ATTEMPTED
                then attemptMoveS \<sigma> st boardRef po (''Not player O'' @ [CHR 0x27] @ ''s turn.'')
                       ''O'' GAME_OVER_O_WINS PLAYER_X_TURN eventData
                else (Inr (invalidResultS st (''No valid transition for event '' @ event
                              @ '' from state '' @ st @ ''.'')), \<sigma>))
             else if st = GAME_OVER_X_WINS \<or> st = GAME_OVER_O_WINS \<or> st = GAME_OVER_DRAW
             then (Inr (invalidResultS st ''Game is already over.''), \<sigma>)
             else (Inr (invalidResultS st (''No valid transition for event '' @ event
                           @ '' from state '' @ st @ ''.'')), \<sigma>)
         | _ \<Rightarrow> (Inl TypeError, \<sigma>)))"

text \<open>A result with the board it refers to read from the store: the result by value.\<close>

definition readOutcome :: "store \<Rightarrow> jsError + TransitionResultS \<Rightarrow> (jsError + TransitionResult) option" where
  "readOutcome \<sigma> out =
     (case out of
        Inl e \<Rightarrow> Some (Inl e)
      | Inr res \<Rightarrow>
          (case newBoardS res of
             None \<Rightarrow> Some (Inr \<lparr>newState = newStateS res, isValidMove = isValidMoveS res,
                                newBoard = None, error = errorS res\<rparr>)
           | Some ref \<Rightarrow>
               (case readBoard \<sigma> ref of
                  None \<Rightarrow> None
                | Some b \<Rightarrow> Some (Inr \<lparr>newState = newStateS res, isValidMove = isValidMoveS res,
                                        newBoard = Some b, error = errorS res\<rparr>))))"

section \<open>Log entries and the hash chain\<close>

text \<open>
  The \<^verbatim>\<open>eventData\<close> of a log entry has one shape per event type; the shapes are the
  object literals the client passes to \<^verbatim>\<open>addLogEntry\<close>.
\<close>

datatype LogEventData =
    GameCreatedData string string
  | MoveValidatedData string Move string
  | MoveRejectedData string Move string
  | GameWonData string
  | GameDrawnData

text \<open>\<^verbatim>\<open>eventData.move\<close> and \<^verbatim>\<open>eventData.playerId\<close>; \<open>None\<close> is \<^verbatim>\<open>undefined\<close>, the
  value of a property the object does not have.\<close>

fun moveOf :: "LogEventData \<Rightarrow> Move option" where
  "moveOf (MoveValidatedData pid m symbolPlaced) = Some m"
| "moveOf _ = None"

fun playerIdOf :: "LogEventData \<Rightarrow> string option" where
  "playerIdOf (MoveValidatedData pid m symbolPlaced) = Some pid"
| "playerIdOf (MoveRejectedData pid m reason) = Some pid"
| "playerIdOf _ = None"

record LogEntry =
  sequence :: jsNumber
  eventType :: string
  clientTimestamp :: jsNumber
  eventData :: LogEventData
  boardState :: Board
  fsmState :: string
  previousEntryChainHash :: string
  currentEntryChainHash :: string

text \<open>The objects as JSON values, keys in the order the client's object literals list them.\<close>

definition moveJson :: "Move \<Rightarrow> json" where
  "moveJson m = JObj [(''rowIndex'', JNum (rowIndex m)), (''colIndex'', JNum (colIndex m))]"

fun eventDataJson :: "LogEventData \<Rightarrow> json" where
  "eventDataJson (GameCreatedData px po) = JObj [(''playerX'', JStr px), (''playerO'', JStr po)]"
| "eventDataJson (MoveValidatedData pid m symbolPlaced) =
     JObj [(''playerId'', JStr pid), (''move'', moveJson m), (''symbolPlaced'', JStr symbolPlaced)]"
| "eventDataJson (MoveRejectedData pid m reason) =
     JObj [(''playerId'', JStr pid), (''attemptedMove'', moveJson m), (''reason'', JStr reason)]"
| "eventDataJson (GameWonData pid) = JObj [(''winningPlayerId'', JStr pid)]"
| "eventDataJson GameDrawnData = JObj []"

definition boardJson :: "Board \<Rightarrow> json" where
  "boardJson b = JArr (map (\<lambda>row. JArr (map JStr row)) b)"

text \<open>
  \<^verbatim>\<open>getObjectToHash\<close>: the rest pattern \<^verbatim>\<open>{ currentEntryChainHash, ...entryToHash }\<close>
  copies every property of the entry but \<^verbatim>\<open>currentEntryChainHash\<close>.
\<close>

definition getObjectToHash :: "LogEntry \<Rightarrow> json" where
  "getObjectToHash logEntry =
     JObj [(''sequence'', JNum (sequence logEntry)),
           (''eventType'', JStr (eventType logEntry)),
           (''clientTimestamp'', JNum (clientTimestamp logEntry)),
           (''eventData'', eventDataJson (eventData logEntry)),
           (''boardState'', boardJson (boardState logEntry)),
           (''fsmState'', JStr (fsmState logEntry)),
           (''previousEntryChainHash'', JStr (previousEntryChainHash logEntry))]"

text \<open>
  SHA-256 with hexadecimal output comes from the platform's crypto library. It is the
  parameter \<open>sha256\<close> of every function that hashes; nothing below depends on which
  function it is.
\<close>

definition calculateEntryHash ::
  "(string \<Rightarrow> string) \<Rightarrow> (jsNumber \<Rightarrow> string) \<Rightarrow> LogEntry \<Rightarrow> string" where
  "calculateEntryHash sha256 numberToString logEntry =
     sha256 (getCanonicalString numberToString (getObjectToHash logEntry))"

definition zeroHash :: string where
  "zeroHash = replicate 64 (CHR ''0'')"

text \<open>The loop of \<^verbatim>\<open>verifyHashChain\<close>, with the variable \<^verbatim>\<open>previousHash\<close> as an argument.\<close>

fun verifyHashChainFrom ::
  "(string \<Rightarrow> string) \<Rightarrow> (jsNumber \<Rightarrow> string) \<Rightarrow> string \<Rightarrow> LogEntry list \<Rightarrow> bool" where
  "verifyHashChainFrom sha256 numberToString previousHash [] = True"
| "verifyHashChainFrom sha256 numberToString previousHash (entry # rest) =
     (if previousEntryChainHash entry \<noteq> previousHash then False
      else if calculateEntryHash sha256 numberToString entry \<noteq> currentEntryChainHash entry
      then False
      else verifyHashChainFrom sha256 numberToString (currentEntryChainHash entry) rest)"

definition verifyHashChain ::
  "(string \<Rightarrow> string) \<Rightarrow> (jsNumber \<Rightarrow> string) \<Rightarrow> LogEntry list \<Rightarrow> bool" where
  "verifyHashChain sha256 numberToString gameLog =
     verifyHashChainFrom sha256 numberToString zeroHash gameLog"

section \<open>The replay verifier\<close>

definition startsWith :: "string \<Rightarrow> string \<Rightarrow> bool" where
  "startsWith s p = (take (length p) s = p)"

text \<open>
  The loop of \<^verbatim>\<open>verifyFsmGameplay\<close> over the validated moves, with \<^verbatim>\<open>serverGameState\<close>
  as an argument. \<open>Inr None\<close> is the early \<^verbatim>\<open>return false\<close>; \<open>Inr (Some s)\<close> is the
  server state when the loop ends. A valid result without a board would pass
  \<^verbatim>\<open>undefined\<close> to the hash, which throws.
\<close>

fun replayMoves ::
  "(string \<Rightarrow> string) \<Rightarrow> (jsNumber \<Rightarrow> string) \<Rightarrow> GameState \<Rightarrow> LogEntry list
     \<Rightarrow> jsError + GameState option" where
  "replayMoves sha256 numberToString serverGameState [] = Inr (Some serverGameState)"
| "replayMoves sha256 numberToString serverGameState (moveEntry # rest) =
     (case transition serverGameState PLAYER_MOVE_ATTEMPTED
             \<lparr>move = moveOf (eventData moveEntry), playerId = playerIdOf (eventData moveEntry)\<rparr> of
        Inl e \<Rightarrow> Inl e
      | Inr transitionResult \<Rightarrow>
          if \<not> isValidMove transitionResult then Inr None
          else if newState transitionResult \<noteq> fsmState moveEntry then Inr None
          else
            (case newBoard transitionResult of
               None \<Rightarrow> Inl TypeError
             | Some nb \<Rightarrow>
                 if sha256 (getCanonicalString numberToString (boardJson nb))
                      \<noteq> sha256 (getCanonicalString numberToString
                                  (boardJson (boardState moveEntry)))
                 then Inr None
                 else replayMoves sha256 numberToString
                        (serverGameState\<lparr>currentState := newState transitionResult, board := nb\<rparr>)
                        rest))"

text \<open>
  After the loop, \<^verbatim>\<open>gameLog[gameLog.length - 1]\<close> is \<^verbatim>\<open>undefined\<close> for the empty log and
  the read of its \<^verbatim>\<open>eventType\<close> throws.
\<close>

definition verifyFsmGameplay ::
  "(string \<Rightarrow> string) \<Rightarrow> (jsNumber \<Rightarrow> string) \<Rightarrow> LogEntry list \<Rightarrow> string \<Rightarrow> string
     \<Rightarrow> jsError + bool" where
  "verifyFsmGameplay sha256 numberToString gameLog playerX_Id playerO_Id =
     (let validatedMoves = filter (\<lambda>entry. eventType entry = ''PLAYER_MOVE_VALIDATED'') gameLog
      in case replayMoves sha256 numberToString (getInitialGameState playerX_Id playerO_Id)
                validatedMoves of
           Inl e \<Rightarrow> Inl e
         | Inr None \<Rightarrow> Inr False
         | Inr (Some serverGameState) \<Rightarrow>
             (if gameLog = [] then Inl TypeError
              else
                let serverFinalState = currentState serverGameState;
                    clientFinalLogEntry = last gameLog
                in if \<not> startsWith (eventType clientFinalLogEntry) ''GAME_'' then Inr False
                   else if fsmState clientFinalLogEntry \<noteq> serverFinalState then Inr False
                   else Inr True))"

section \<open>The client that writes the log (\<^verbatim>\<open>client/main.js\<close>)\<close>

text \<open>
  The session variables of the client. \<^verbatim>\<open>addLogEntry\<close> is an \<^verbatim>\<open>async\<close> function:
  it builds the entry from the variables, starts the digest and is suspended at the
  \<^verbatim>\<open>await\<close>; it writes the variables only when the digest has resolved. Until then the
  browser may run other handlers. The suspended calls are part of the state: each is the
  entry it holds, still without its hash, and what runs when the call returns, which is
  \<^verbatim>\<open>render\<close> after the \<^verbatim>\<open>await addLogEntry\<close> of \<^verbatim>\<open>startGame\<close> and
  \<^verbatim>\<open>handleCellClick\<close>, and the timer before the submission in \<^verbatim>\<open>handleGameOver\<close>.
  \<^verbatim>\<open>Date.now()\<close> is an input of each function that builds an entry. The two player ids
  are constants of the client (\<^verbatim>\<open>'DOGE'\<close> and \<^verbatim>\<open>'PEPE'\<close>), here the arguments
  \<open>playerX_Id\<close> and \<open>playerO_Id\<close>.
\<close>

datatype Continuation = ThenRender | ThenSubmit

record ClientState =
  currentGameState :: GameState
  gameLog :: "LogEntry list"
  latestEntryChainHash :: string
  sequenceNumber :: jsNumber
  suspended :: "(LogEntry \<times> Continuation) list"

text \<open>
  The object literal at the top of \<^verbatim>\<open>addLogEntry\<close>. The entry has no
  \<^verbatim>\<open>currentEntryChainHash\<close> yet; the field of the record is empty and
  \<open>getObjectToHash\<close> does not read it.
\<close>

definition newLogEntry :: "jsNumber \<Rightarrow> string \<Rightarrow> LogEventData \<Rightarrow> ClientState \<Rightarrow> LogEntry" where
  "newLogEntry now evType evData cs =
     \<lparr>sequence = sequenceNumber cs,
      eventType = evType,
      clientTimestamp = now,
      eventData = evData,
      boardState = cloneBoard (board (currentGameState cs)),
      fsmState = currentState (currentGameState cs),
      previousEntryChainHash = latestEntryChainHash cs,
      currentEntryChainHash = []\<rparr>"

text \<open>\<^verbatim>\<open>addLogEntry\<close> up to its \<^verbatim>\<open>await\<close>: the entry is built and the call is suspended.\<close>

definition addLogEntryBegin ::
  "jsNumber \<Rightarrow> string \<Rightarrow> LogEventData \<Rightarrow> Continuation \<Rightarrow> ClientState \<Rightarrow> ClientState" where
  "addLogEntryBegin now evType evData cont cs =
     cs\<lparr>suspended := suspended cs @ [(newLogEntry now evType evData cs, cont)]\<rparr>"

text \<open>
  \<^verbatim>\<open>addLogEntry\<close> after its \<^verbatim>\<open>await\<close>: the hash of the entry as it was built is
  stored in it and in \<^verbatim>\<open>latestEntryChainHash\<close>, the entry is pushed and
  \<^verbatim>\<open>sequenceNumber\<close> is incremented.
\<close>

definition addLogEntryResume ::
  "(string \<Rightarrow> string) \<Rightarrow> (jsNumber \<Rightarrow> string) \<Rightarrow> LogEntry \<Rightarrow> ClientState \<Rightarrow> ClientState" where
  "addLogEntryResume sha256 numberToString logEntry cs =
     (let newHash = calculateEntryHash sha256 numberToString logEntry
      in cs\<lparr>latestEntryChainHash := newHash,
             gameLog := gameLog cs @ [logEntry\<lparr>currentEntryChainHash := newHash\<rparr>],
             sequenceNumber := sequenceNumber cs + 1\<rparr>)"

text \<open>
  The part of \<^verbatim>\<open>render\<close> that writes to the log: when the game is over and the last
  entry is a player's, \<^verbatim>\<open>handleGameOver\<close> is called, which runs up to the \<^verbatim>\<open>await\<close> of
  its \<^verbatim>\<open>addLogEntry\<close>.
\<close>

definition render :: "jsNumber \<Rightarrow> string \<Rightarrow> string \<Rightarrow> ClientState \<Rightarrow> ClientState" where
  "render now playerX_Id playerO_Id cs =
     (let st = currentState (currentGameState cs);
          isGameOver = startsWith st ''GAME_OVER''
      in if isGameOver \<and> length (gameLog cs) > 0
            \<and> startsWith (eventType (last (gameLog cs))) ''PLAYER_''
         then
           let finalEventType = (if st = GAME_OVER_DRAW then ''GAME_DRAWN'' else ''GAME_WON'');
               finalEventData =
                 (if finalEventType = ''GAME_WON''
                  then GameWonData (if st = GAME_OVER_X_WINS then playerX_Id else playerO_Id)
                  else GameDrawnData)
           in addLogEntryBegin now finalEventType finalEventData ThenSubmit cs
         else cs)"

text \<open>
  \<^verbatim>\<open>startGame\<close> on page load, from the answer of the server on: the variables are set
  and the call of \<^verbatim>\<open>addLogEntry\<close> for the \<^verbatim>\<open>GAME_CREATED\<close> entry is suspended.
\<close>

definition startGame :: "jsNumber \<Rightarrow> string \<Rightarrow> string \<Rightarrow> ClientState" where
  "startGame now playerX_Id playerO_Id =
     addLogEntryBegin now ''GAME_CREATED'' (GameCreatedData playerX_Id playerO_Id) ThenRender
       \<lparr>currentGameState = getInitialGameState playerX_Id playerO_Id,
        gameLog = [],
        latestEntryChainHash = zeroHash,
        sequenceNumber = 0,
        suspended = []\<rparr>"

text \<open>
  \<^verbatim>\<open>handleCellClick\<close> for a click on the cell \<open>(r, c)\<close>, up to its
  \<^verbatim>\<open>await addLogEntry\<close>: the game state is updated first, then the entry is built. An
  invalid result always carries an error string, a valid one a board.
\<close>

definition handleCellClick ::
  "jsNumber \<Rightarrow> string \<Rightarrow> string \<Rightarrow> jsNumber \<Rightarrow> jsNumber \<Rightarrow> ClientState \<Rightarrow> jsError + ClientState" where
  "handleCellClick now playerX_Id playerO_Id r c cs =
     (let st = currentState (currentGameState cs)
      in if startsWith st ''GAME_OVER'' then Inr cs
         else
           let currentPlayerId = (if st = PLAYER_X_TURN then playerX_Id else playerO_Id);
               currentSymbol = (if st = PLAYER_X_TURN then ''X'' else ''O'');
               m = \<lparr>rowIndex = r, colIndex = c\<rparr>
           in case transition (currentGameState cs) PLAYER_MOVE_ATTEMPTED
                     \<lparr>move = Some m, playerId = Some currentPlayerId\<rparr> of
                Inl e \<Rightarrow> Inl e
              | Inr transitionResult \<Rightarrow>
                  if isValidMove transitionResult then
                    (case newBoard transitionResult of
                       None \<Rightarrow> Inl SyntaxError
                     | Some nb \<Rightarrow>
                         Inr (addLogEntryBegin now ''PLAYER_MOVE_VALIDATED''
                                (MoveValidatedData currentPlayerId m currentSymbol) ThenRender
                                (cs\<lparr>currentGameState :=
                                      (currentGameState cs)
                                        \<lparr>currentState := newState transitionResult,
                                         board := nb\<rparr>\<rparr>)))
                  else
                    Inr (addLogEntryBegin now ''PLAYER_MOVE_REJECTED''
                           (MoveRejectedData currentPlayerId m
                              (case error transitionResult of Some msg \<Rightarrow> msg | None \<Rightarrow> []))
                           ThenRender
                           (cs\<lparr>currentGameState :=
                                 (currentGameState cs)
                                   \<lparr>currentState := newState transitionResult\<rparr>\<rparr>)))"

text \<open>
  The digest of the \<open>k\<close>-th suspended call resolves: the call resumes, and what awaited it
  runs in the same turn of the event loop. \<open>now\<close> is the clock reading of that turn.
\<close>

definition digestResolved ::
  "(string \<Rightarrow> string) \<Rightarrow> (jsNumber \<Rightarrow> string) \<Rightarrow> jsNumber \<Rightarrow> string \<Rightarrow> string \<Rightarrow> nat
     \<Rightarrow> ClientState \<Rightarrow> ClientState" where
  "digestResolved sha256 numberToString now playerX_Id playerO_Id k cs =
     (if k < length (suspended cs) then
        let logEntry = fst (suspended cs ! k);
            cont = snd (suspended cs ! k);
            cs1 = addLogEntryResume sha256 numberToString logEntry
                    (cs\<lparr>suspended := take k (suspended cs) @ drop (Suc k) (suspended cs)\<rparr>)
        in (case cont of
              ThenRender \<Rightarrow> render now playerX_Id playerO_Id cs1
            | ThenSubmit \<Rightarrow> cs1)
      else cs)"

text \<open>
  What the browser's event loop delivers to the page: a click on a cell, or the
  resolution of a pending digest. A session is a list of such events, in the order in
  which the event loop runs them.
\<close>

datatype BrowserEvent =
    Click jsNumber jsNumber jsNumber
  | DigestResolved jsNumber nat

fun runClient ::
  "(string \<Rightarrow> string) \<Rightarrow> (jsNumber \<Rightarrow> string) \<Rightarrow> string \<Rightarrow> string \<Rightarrow> BrowserEvent list
     \<Rightarrow> ClientState \<Rightarrow> jsError + ClientState" where
  "runClient sha256 numberToString playerX_Id playerO_Id [] cs = Inr cs"
| "runClient sha256 numberToString playerX_Id playerO_Id (Click now r c # events) cs =
     (case handleCellClick now playerX_Id playerO_Id r c cs of
        Inl e \<Rightarrow> Inl e
      | Inr cs' \<Rightarrow> runClient sha256 numberToString playerX_Id playerO_Id events cs')"
| "runClient sha256 numberToString playerX_Id playerO_Id (DigestResolved now k # events) cs =
     runClient sha256 numberToString playerX_Id playerO_Id events
       (digestResolved sha256 numberToString now playerX_Id playerO_Id k cs)"

text \<open>
  A session in which every digest resolves before the next click: after the page has
  loaded and after each click, the suspended call resumes, and so does the call for the
  terminal entry if \<^verbatim>\<open>render\<close> started one.
\<close>

definition settled :: "jsNumber \<Rightarrow> BrowserEvent list" where
  "settled later = [DigestResolved later 0, DigestResolved later 0]"

fun oneAtATime :: "(jsNumber \<times> jsNumber \<times> jsNumber \<times> jsNumber) list \<Rightarrow> BrowserEvent list" where
  "oneAtATime [] = []"
| "oneAtATime ((now, later, r, c) # clicks) = Click now r c # settled later @ oneAtATime clicks"

section \<open>Predicates of the specification\<close>

text \<open>A board of the game: three rows of three cells.\<close>

definition wellFormedBoard :: "Board \<Rightarrow> bool" where
  "wellFormedBoard b = (length b = 3 \<and> list_all (\<lambda>row. length row = 3) b)"

text \<open>
  The mover's symbol on all three cells of a row, of a column or of one of the two
  diagonals; and a board with no empty cell.
\<close>

definition threeInLine :: "Board \<Rightarrow> string \<Rightarrow> bool" where
  "threeInLine b s =
     ((\<exists>i \<in> {0, 1, 2}. \<forall>j \<in> {0, 1, 2}. b ! i ! j = s)
      \<or> (\<exists>j \<in> {0, 1, 2}. \<forall>i \<in> {0, 1, 2}. b ! i ! j = s)
      \<or> (\<forall>i \<in> {0, 1, 2}. b ! i ! i = s)
      \<or> (\<forall>i \<in> {0, 1, 2}. b ! i ! (2 - i) = s))"

definition noEmptyCell :: "Board \<Rightarrow> bool" where
  "noEmptyCell b = (\<forall>i \<in> {0, 1, 2}. \<forall>j \<in> {0, 1, 2}. b ! i ! j \<noteq> [])"


text \<open>
  The replay of the specification (section 4.4). The move of an entry is its recorded
  player id and indices. Step 1 runs \<^verbatim>\<open>transition\<close> on the server state and that move;
  step 5 advances the server state to the result's state and board. \<open>specStateAfter s es\<close>
  is the server state after the entries \<open>es\<close>, from the state \<open>s\<close>. An entry is accepted
  at a state when steps 2 to 4 do not reject it: the move is valid, the resulting state is
  the recorded one, and the hashed canonical strings of the resulting and of the recorded
  board are equal.
\<close>

definition specMove :: "LogEntry \<Rightarrow> EventData" where
  "specMove entry =
     \<lparr>move = moveOf (eventData entry), playerId = playerIdOf (eventData entry)\<rparr>"

fun specStateAfter :: "GameState \<Rightarrow> LogEntry list \<Rightarrow> GameState" where
  "specStateAfter s [] = s"
| "specStateAfter s (entry # rest) =
     (case transition s PLAYER_MOVE_ATTEMPTED (specMove entry) of
        Inl e \<Rightarrow> s
      | Inr res \<Rightarrow>
          (case newBoard res of
             None \<Rightarrow> s
           | Some nb \<Rightarrow> specStateAfter (s\<lparr>currentState := newState res, board := nb\<rparr>) rest))"

definition specAccepted ::
  "(string \<Rightarrow> string) \<Rightarrow> (jsNumber \<Rightarrow> string) \<Rightarrow> GameState \<Rightarrow> LogEntry \<Rightarrow> bool" where
  "specAccepted sha256 numberToString s entry =
     (case transition s PLAYER_MOVE_ATTEMPTED (specMove entry) of
        Inl e \<Rightarrow> False
      | Inr res \<Rightarrow>
          isValidMove res \<and> newState res = fsmState entry
          \<and> (case newBoard res of
                None \<Rightarrow> False
              | Some nb \<Rightarrow>
                  sha256 (getCanonicalString numberToString (boardJson nb))
                    = sha256 (getCanonicalString numberToString (boardJson (boardState entry)))))"

section \<open>Auxiliary functions and invariants\<close>

text \<open>The result of a valid move on the new board \<open>nb\<close>, in the words of the specification.\<close>

definition outcome :: "Board \<Rightarrow> string \<Rightarrow> string \<Rightarrow> string \<Rightarrow> TransitionResult" where
  "outcome nb s winState nextTurn =
     (if threeInLine nb s then validResult winState nb
      else if noEmptyCell nb then validResult GAME_OVER_DRAW nb
      else validResult nextTurn nb)"

text \<open>
  The pure counterpart of \<open>attemptMoveS\<close>: one move branch of \<^verbatim>\<open>transition\<close> as a
  function of the board.
\<close>

definition attemptMove ::
  "Board \<Rightarrow> string \<Rightarrow> string \<Rightarrow> string \<Rightarrow> string \<Rightarrow> string \<Rightarrow> string \<Rightarrow> EventData
     \<Rightarrow> jsError + TransitionResult" where
  "attemptMove b st turnPlayer wrongTurn playerSymbol winState nextTurn d =
     (let r = rowIndex (the (move d)); c = colIndex (the (move d))
      in
      if playerId d \<noteq> Some turnPlayer then Inr (invalidResult st wrongTurn)
      else if r < 0 \<or> r > 2 \<or> c < 0 \<or> c > 2
      then Inr (invalidResult st ''Invalid move: cell is occupied or out of bounds.'')
      else
        (case readCellAt b r c of
           Inl e \<Rightarrow> Inl e
         | Inr cell \<Rightarrow>
             if cell \<noteq> Some []
             then Inr (invalidResult st ''Invalid move: cell is occupied or out of bounds.'')
             else
               let nb = placeSymbol (cloneBoard b) (nat \<lfloor>r\<rfloor>) (nat \<lfloor>c\<rfloor>) playerSymbol
               in (case checkWin nb playerSymbol of
                     Inl e \<Rightarrow> Inl e
                   | Inr won \<Rightarrow>
                       if won then Inr (validResult winState nb)
                       else if checkDraw nb then Inr (validResult GAME_OVER_DRAW nb)
                       else Inr (validResult nextTurn nb))))"

text \<open>
  What holds of the client's session variables whenever no call of \<^verbatim>\<open>addLogEntry\<close> is
  suspended, in a session where every digest resolves before the next click: the log is a
  valid chain ending in \<open>latestEntryChainHash\<close>, replaying its validated moves gives the
  client's game state, and the last entry records the current FSM state.
\<close>

definition chainInv ::
  "(string \<Rightarrow> string) \<Rightarrow> (jsNumber \<Rightarrow> string) \<Rightarrow> string \<Rightarrow> string \<Rightarrow> ClientState \<Rightarrow> bool" where
  "chainInv sha256 numberToString px po cs =
     (verifyHashChainFrom sha256 numberToString zeroHash (gameLog cs)
      \<and> latestEntryChainHash cs
          = (if gameLog cs = [] then zeroHash else currentEntryChainHash (last (gameLog cs)))
      \<and> replayMoves sha256 numberToString (getInitialGameState px po)
           (filter (\<lambda>entry. eventType entry = ''PLAYER_MOVE_VALIDATED'') (gameLog cs))
          = Inr (Some (currentGameState cs)))"

definition honestInv ::
  "(string \<Rightarrow> string) \<Rightarrow> (jsNumber \<Rightarrow> string) \<Rightarrow> string \<Rightarrow> string \<Rightarrow> ClientState \<Rightarrow> bool" where
  "honestInv sha256 numberToString px po cs =
     (chainInv sha256 numberToString px po cs \<and> gameLog cs \<noteq> []
      \<and> fsmState (last (gameLog cs)) = currentState (currentGameState cs))"

section \<open>Sample inputs\<close>

text \<open>
  Stand-ins for the two platform functions: a hash that is the length of its input in
  decimal, and a number-to-string conversion that prints the whole part of a number.
\<close>

fun decimalNat :: "nat \<Rightarrow> string" where
  "decimalNat n =
     (if n < 10 then [digitChar n] else decimalNat (n div 10) @ [digitChar (n mod 10)])"

declare decimalNat.simps [simp del]

definition lengthHash :: "string \<Rightarrow> string" where
  "lengthHash s = decimalNat (length s)"

definition wholeNumberText :: "jsNumber \<Rightarrow> string" where
  "wholeNumberText x =
     (if x < 0 then CHR ''-'' # decimalNat (nat \<lfloor>- x\<rfloor>) else decimalNat (nat \<lfloor>x\<rfloor>))"

text \<open>
  A game of six clicks that X wins (the second click is on an occupied cell), played one
  click at a time; its log; the same log with every recorded FSM state overwritten; a log
  in which DOGE moves twice in a row; and a store holding a game state.
\<close>

definition sampleClicks :: "(jsNumber \<times> jsNumber \<times> jsNumber \<times> jsNumber) list" where
  "sampleClicks =
     [(1, 2, 0, 0), (3, 4, 0, 0), (5, 6, 1, 1), (7, 8, 0, 1), (9, 10, 2, 2), (11, 12, 0, 2)]"

definition sampleRun :: "jsError + ClientState" where
  "sampleRun =
     runClient lengthHash wholeNumberText ''DOGE'' ''PEPE''
       (settled 0 @ oneAtATime sampleClicks) (startGame 0 ''DOGE'' ''PEPE'')"

definition sampleLog :: "LogEntry list" where
  "sampleLog = gameLog (projr sampleRun)"


definition doubleMoveLog :: "LogEntry list" where
  "doubleMoveLog = take 2 sampleLog @ [sampleLog ! 1]"

definition sampleStore :: store where
  "sampleStore =
     [RowObject [''X'', [], []], RowObject [[], ''O'', []], RowObject [[], [], []],
      BoardObject [0, 1, 2], StateObject ''PLAYER_X_TURN'' 3 ''DOGE'' ''PEPE'']"

definition sampleMove :: EventData where
  "sampleMove = \<lparr>move = Some \<lparr>rowIndex = 0, colIndex = 1\<rparr>, playerId = Some ''DOGE''\<rparr>"

text \<open>
  A session in which the second click arrives before the digest of the first click's entry
  has resolved: X clicks (0, 0), O clicks (1, 1), then the two digests resolve; the rest
  of the game is played one click at a time and X wins with the top row.
\<close>

definition raceSchedule :: "BrowserEvent list" where
  "raceSchedule =
     settled 0
     @ [Click 1 0 0, Click 2 1 1, DigestResolved 3 0, DigestResolved 4 0]
     @ oneAtATime [(5, 6, 0, 1), (7, 8, 2, 2), (9, 10, 0, 2)]"

definition raceRun ::
  "(string \<Rightarrow> string) \<Rightarrow> (jsNumber \<Rightarrow> string) \<Rightarrow> jsError + ClientState" where
  "raceRun sha256 numberToString =
     runClient sha256 numberToString ''DOGE'' ''PEPE'' raceSchedule (startGame 0 ''DOGE'' ''PEPE'')"

definition raceLog :: "(string \<Rightarrow> string) \<Rightarrow> (jsNumber \<Rightarrow> string) \<Rightarrow> LogEntry list" where
  "raceLog sha256 numberToString = gameLog (projr (raceRun sha256 numberToString))"

section \<open>Properties of the serializer\<close>

lemma map_of_canonical_values:
  "map_of (map (\<lambda>kv. (fst kv, f (snd kv))) obj) k = map_option f (map_of obj k)"
  by (induction obj) auto

lemma sort_keys_unique:
  fixes a b :: "string list"
  assumes "distinct a" "distinct b" "set a = set b"
  shows "sort a = sort b"
proof (rule sorted_distinct_set_unique)
  show "sorted (sort a)" "sorted (sort b)" by simp_all
  show "distinct (sort a)" "distinct (sort b)" using assms by simp_all
  show "set (sort a) = set (sort b)" using assms by simp
qed

lemma key_has_value: "k \<in> set (map fst obj) \<Longrightarrow> \<exists>v. map_of obj k = Some v"
  by (induction obj) auto

text \<open>
  Claim C8. \<^verbatim>\<open>getCanonicalString\<close> does not depend on the insertion order of object
  keys: two values that are the same up to key insertion order (at every depth) have the
  same canonical string, whatever text the platform gives for numbers.
\<close>

theorem getCanonicalString_key_order_independent:
  "sameUpToKeyOrder x y \<Longrightarrow>
     getCanonicalString numberToString x = getCanonicalString numberToString y"
proof (induction rule: sameUpToKeyOrder.induct)
  case (sameArr xs ys)
  then have "list_all2 (\<lambda>u v. getCanonicalString numberToString u
                               = getCanonicalString numberToString v) xs ys"
    by (simp add: list_all2_conv_all_nth)
  then have "map (getCanonicalString numberToString) xs = map (getCanonicalString numberToString) ys"
    by (induction xs ys rule: list_all2_induct) simp_all
  then show ?case by simp
next
  case (sameObj a b)
  have keys: "sort (map fst a) = sort (map fst b)"
    using sameObj(1,2,3) by (rule sort_keys_unique)
  have vals: "the (map_of (map (\<lambda>kv. (fst kv, getCanonicalString numberToString (snd kv))) a) k)
            = the (map_of (map (\<lambda>kv. (fst kv, getCanonicalString numberToString (snd kv))) b) k)"
    if kin: "k \<in> set (map fst a)" for k
  proof -
    obtain v where v: "map_of a k = Some v" using key_has_value [OF kin] by blast
    from kin sameObj(3) have kinb: "k \<in> set (map fst b)" by simp
    obtain w where w: "map_of b k = Some w" using key_has_value [OF kinb] by blast
    from bspec [OF sameObj(4) kin]
    have "getCanonicalString numberToString (the (map_of a k))
        = getCanonicalString numberToString (the (map_of b k))"
      by (rule conjunct2)
    then have "getCanonicalString numberToString v = getCanonicalString numberToString w"
      by (simp add: v w)
    then show ?thesis by (simp add: map_of_canonical_values v w)
  qed
  have "map (\<lambda>key. stringifyString key @ '':'' @
               the (map_of (map (\<lambda>kv. (fst kv, getCanonicalString numberToString (snd kv))) a) key))
            (sort (map fst a))
      = map (\<lambda>key. stringifyString key @ '':'' @
               the (map_of (map (\<lambda>kv. (fst kv, getCanonicalString numberToString (snd kv))) b) key))
            (sort (map fst b))"
    unfolding keys [symmetric] by (rule map_cong) (auto simp: vals)
  then show ?case by (simp only: getCanonicalString.simps Let_def)
qed simp_all

theorem getCanonicalString_key_order_independent_witness:
  "sameUpToKeyOrder
     (JObj [(''b'', JNum 1), (''a'', JObj [(''d'', JNull), (''c'', JArr [JStr ''x''])])])
     (JObj [(''a'', JObj [(''c'', JArr [JStr ''x'']), (''d'', JNull)]), (''b'', JNum 1)])
   \<and> getCanonicalString wholeNumberText
       (JObj [(''b'', JNum 1), (''a'', JObj [(''d'', JNull), (''c'', JArr [JStr ''x''])])])
     = getCanonicalString wholeNumberText
       (JObj [(''a'', JObj [(''c'', JArr [JStr ''x'']), (''d'', JNull)]), (''b'', JNum 1)])"
proof -
  have h: "sameUpToKeyOrder
     (JObj [(''b'', JNum 1), (''a'', JObj [(''d'', JNull), (''c'', JArr [JStr ''x''])])])
     (JObj [(''a'', JObj [(''c'', JArr [JStr ''x'']), (''d'', JNull)]), (''b'', JNum 1)])"
    by (auto intro!: sameUpToKeyOrder.intros)
  from h getCanonicalString_key_order_independent [OF h] show ?thesis by (rule conjI)
qed


section \<open>Properties of the FSM\<close>

subsection \<open>Boards of three rows of three cells\<close>

lemma length_three: "length xs = 3 \<longleftrightarrow> (\<exists>a b c. xs = [a, b, c])"
  by (auto simp: numeral_3_eq_3 length_Suc_conv)

lemma wf_shape:
  assumes "wellFormedBoard b"
  obtains a0 a1 a2 b0 b1 b2 c0 c1 c2
  where "b = [[a0, a1, a2], [b0, b1, b2], [c0, c1, c2]]"
proof -
  from assms obtain r0 r1 r2 where b: "b = [r0, r1, r2]"
    unfolding wellFormedBoard_def length_three by blast
  from assms b have "length r0 = 3" "length r1 = 3" "length r2 = 3"
    by (simp_all add: wellFormedBoard_def)
  then show ?thesis using that b unfolding length_three by blast
qed

lemma wf_lengths:
  assumes "wellFormedBoard b"
  shows "length b = 3" and "i < 3 \<Longrightarrow> length (b ! i) = 3"
  using assms by (simp_all add: wellFormedBoard_def list_all_length)

lemma readCell_wf:
  assumes "wellFormedBoard b" "r < 3" "c < 3"
  shows "readCell b r c = Inr (Some (b ! r ! c))"
  using assms by (simp add: readCell_def wf_lengths)

lemma checkWin_wf:
  assumes "wellFormedBoard b"
  shows "checkWin b s = Inr (threeInLine b s)"
  unfolding checkWin_def winConditions_def threeInLine_def
  by (simp add: readCell_wf [OF assms])

lemma checkDraw_wf:
  assumes "wellFormedBoard b"
  shows "checkDraw b = noEmptyCell b"
proof -
  from assms obtain a0 a1 a2 b0 b1 b2 c0 c1 c2
    where b: "b = [[a0, a1, a2], [b0, b1, b2], [c0, c1, c2]]" by (rule wf_shape)
  show ?thesis by (auto simp: b checkDraw_def noEmptyCell_def)
qed

lemma cloneBoard_same: "cloneBoard b = b"
  by (simp add: cloneBoard_def)

lemma placeSymbol_wf:
  assumes "wellFormedBoard b"
  shows "wellFormedBoard (placeSymbol b r c s)"
proof -
  have "length ((b[r := (b ! r)[c := s]]) ! i) = 3" if "i < 3" for i
    using that wf_lengths [OF assms] by (cases "i = r") simp_all
  with wf_lengths(1) [OF assms] show ?thesis
    by (simp add: wellFormedBoard_def placeSymbol_def list_all_length)
qed

text \<open>The write changes the chosen cell and no other.\<close>

lemma placeSymbol_cells:
  assumes "wellFormedBoard b" "i < 3" "j < 3" "i' < 3" "j' < 3"
  shows "placeSymbol b i j s ! i' ! j' = (if i' = i \<and> j' = j then s else b ! i' ! j')"
  using assms wf_lengths [OF assms(1)]
  by (simp add: placeSymbol_def nth_list_update)

subsection \<open>Numbers as array indices\<close>

lemma arrayIndex_whole:
  "0 \<le> x \<Longrightarrow> of_int \<lfloor>x\<rfloor> = x \<Longrightarrow> arrayIndex x = Some (nat \<lfloor>x\<rfloor>)"
  by (simp add: arrayIndex_def)

lemma arrayIndex_fraction: "of_int \<lfloor>x\<rfloor> \<noteq> x \<Longrightarrow> arrayIndex x = None"
  by (simp add: arrayIndex_def)

lemma in_range_index: "0 \<le> x \<Longrightarrow> x \<le> 2 \<Longrightarrow> nat \<lfloor>x :: jsNumber\<rfloor> < 3"
proof -
  assume "0 \<le> x" "x \<le> 2"
  then have "x < of_int 3" by simp
  then have "\<lfloor>x\<rfloor> < 3" by (simp only: floor_less_iff)
  then show ?thesis by linarith
qed

lemma readCellAt_wf:
  assumes wf: "wellFormedBoard b" and r: "0 \<le> r" "r \<le> 2" and c: "0 \<le> c" "c \<le> 2"
  shows "readCellAt b r c =
     (if of_int \<lfloor>r\<rfloor> \<noteq> r then Inl TypeError
      else if of_int \<lfloor>c\<rfloor> \<noteq> c then Inr None
      else Inr (Some (b ! nat \<lfloor>r\<rfloor> ! nat \<lfloor>c\<rfloor>)))"
proof (cases "of_int \<lfloor>r\<rfloor> = r")
  case False
  then show ?thesis by (simp add: readCellAt_def arrayIndex_fraction)
next
  case True
  note ri = arrayIndex_whole [OF r(1) True] and rl = in_range_index [OF r]
  show ?thesis
  proof (cases "of_int \<lfloor>c\<rfloor> = c")
    case False
    with True rl show ?thesis
      by (simp add: readCellAt_def ri arrayIndex_fraction wf_lengths(1) [OF wf])
  next
    case cw: True
    from True cw show ?thesis
      by (simp add: readCellAt_def ri arrayIndex_whole [OF c(1) cw]
            readCell_wf [OF wf rl in_range_index [OF c]])
  qed
qed

subsection \<open>The transition function on a turn state\<close>

lemmas state_names =
  GAME_STARTING_def PLAYER_X_TURN_def PLAYER_O_TURN_def
  GAME_OVER_X_WINS_def GAME_OVER_O_WINS_def GAME_OVER_DRAW_def

lemma transition_X_turn:
  assumes wf: "wellFormedBoard (board gs)" and st: "currentState gs = PLAYER_X_TURN"
  shows "transition gs PLAYER_MOVE_ATTEMPTED \<lparr>move = Some \<lparr>rowIndex = r, colIndex = c\<rparr>, playerId = p\<rparr> =
     (if p \<noteq> Some (playerX gs)
      then Inr (invalidResult PLAYER_X_TURN (''Not player X'' @ [CHR 0x27] @ ''s turn.''))
      else if r < 0 \<or> r > 2 \<or> c < 0 \<or> c > 2
      then Inr (invalidResult PLAYER_X_TURN ''Invalid move: cell is occupied or out of bounds.'')
      else if of_int \<lfloor>r\<rfloor> \<noteq> r then Inl TypeError
      else if of_int \<lfloor>c\<rfloor> \<noteq> c \<or> board gs ! nat \<lfloor>r\<rfloor> ! nat \<lfloor>c\<rfloor> \<noteq> []
      then Inr (invalidResult PLAYER_X_TURN ''Invalid move: cell is occupied or out of bounds.'')
      else Inr (outcome (placeSymbol (board gs) (nat \<lfloor>r\<rfloor>) (nat \<lfloor>c\<rfloor>) ''X'') ''X''
                  GAME_OVER_X_WINS PLAYER_O_TURN))"
proof -
  have ne: "PLAYER_MOVE_ATTEMPTED \<noteq> []" by (simp add: PLAYER_MOVE_ATTEMPTED_def)
  have rd: "readCellAt (board gs) r c =
     (if of_int \<lfloor>r\<rfloor> \<noteq> r then Inl TypeError
      else if of_int \<lfloor>c\<rfloor> \<noteq> c then Inr None
      else Inr (Some (board gs ! nat \<lfloor>r\<rfloor> ! nat \<lfloor>c\<rfloor>)))"
    if "\<not> (r < 0 \<or> r > 2 \<or> c < 0 \<or> c > 2)"
    using that by (intro readCellAt_wf [OF wf]) auto
  have win: "checkWin (placeSymbol (board gs) i j ''X'') ''X''
      = Inr (threeInLine (placeSymbol (board gs) i j ''X'') ''X'')" for i j
    by (rule checkWin_wf [OF placeSymbol_wf [OF wf]])
  have draw: "checkDraw (placeSymbol (board gs) i j ''X'')
      = noEmptyCell (placeSymbol (board gs) i j ''X'')" for i j
    by (rule checkDraw_wf [OF placeSymbol_wf [OF wf]])
  show ?thesis
    unfolding transition_def
    by (simp add: ne st rd win draw cloneBoard_same outcome_def Let_def)
qed

lemma transition_O_turn:
  assumes wf: "wellFormedBoard (board gs)" and st: "currentState gs = PLAYER_O_TURN"
  shows "transition gs PLAYER_MOVE_ATTEMPTED \<lparr>move = Some \<lparr>rowIndex = r, colIndex = c\<rparr>, playerId = p\<rparr> =
     (if p \<noteq> Some (playerO gs)
      then Inr (invalidResult PLAYER_O_TURN (''Not player O'' @ [CHR 0x27] @ ''s turn.''))
      else if r < 0 \<or> r > 2 \<or> c < 0 \<or> c > 2
      then Inr (invalidResult PLAYER_O_TURN ''Invalid move: cell is occupied or out of bounds.'')
      else if of_int \<lfloor>r\<rfloor> \<noteq> r then Inl TypeError
      else if of_int \<lfloor>c\<rfloor> \<noteq> c \<or> board gs ! nat \<lfloor>r\<rfloor> ! nat \<lfloor>c\<rfloor> \<noteq> []
      then Inr (invalidResult PLAYER_O_TURN ''Invalid move: cell is occupied or out of bounds.'')
      else Inr (outcome (placeSymbol (board gs) (nat \<lfloor>r\<rfloor>) (nat \<lfloor>c\<rfloor>) ''O'') ''O''
                  GAME_OVER_O_WINS PLAYER_X_TURN))"
proof -
  have ne: "PLAYER_MOVE_ATTEMPTED \<noteq> []" by (simp add: PLAYER_MOVE_ATTEMPTED_def)
  have xo: "PLAYER_O_TURN \<noteq> PLAYER_X_TURN" by (simp add: state_names)
  have rd: "readCellAt (board gs) r c =
     (if of_int \<lfloor>r\<rfloor> \<noteq> r then Inl TypeError
      else if of_int \<lfloor>c\<rfloor> \<noteq> c then Inr None
      else Inr (Some (board gs ! nat \<lfloor>r\<rfloor> ! nat \<lfloor>c\<rfloor>)))"
    if "\<not> (r < 0 \<or> r > 2 \<or> c < 0 \<or> c > 2)"
    using that by (intro readCellAt_wf [OF wf]) auto
  have win: "checkWin (placeSymbol (board gs) i j ''O'') ''O''
      = Inr (threeInLine (placeSymbol (board gs) i j ''O'') ''O'')" for i j
    by (rule checkWin_wf [OF placeSymbol_wf [OF wf]])
  have draw: "checkDraw (placeSymbol (board gs) i j ''O'')
      = noEmptyCell (placeSymbol (board gs) i j ''O'')" for i j
    by (rule checkDraw_wf [OF placeSymbol_wf [OF wf]])
  show ?thesis
    unfolding transition_def
    by (simp add: ne st xo rd win draw cloneBoard_same outcome_def Let_def)
qed

lemma transition_result_shape:
  assumes "transition gs event d = Inr res"
  shows "(isValidMove res \<longrightarrow> (\<exists>nb. newBoard res = Some nb))
       \<and> (\<not> isValidMove res \<longrightarrow> newState res = currentState gs \<and> newBoard res = None)"
  using assms unfolding transition_def Let_def
  by (auto simp: invalidResult_def validResult_def noTransition_def
           split: if_splits sum.splits)

text \<open>
  On a row index that is whole, the move is valid exactly when the player id is that of
  the player whose turn it is, both indices lie between 0 and 2, the column index is whole
  and the cell is empty; an invalid move leaves the state as it is and carries the
  wrong-turn message when the player id is not the mover's, the
  occupied-or-out-of-bounds message otherwise.
\<close>

lemma transition_valid_iff_whole_row:
  assumes "wellFormedBoard (board gs)"
    and "currentState gs = PLAYER_X_TURN \<or> currentState gs = PLAYER_O_TURN"
    and "of_int \<lfloor>r\<rfloor> = r"
  shows "\<exists>res.
      transition gs PLAYER_MOVE_ATTEMPTED
        \<lparr>move = Some \<lparr>rowIndex = r, colIndex = c\<rparr>, playerId = Some pid\<rparr> = Inr res
    \<and> (isValidMove res \<longleftrightarrow>
         pid = (if currentState gs = PLAYER_X_TURN then playerX gs else playerO gs)
         \<and> 0 \<le> r \<and> r \<le> 2 \<and> 0 \<le> c \<and> c \<le> 2 \<and> of_int \<lfloor>c\<rfloor> = c
         \<and> board gs ! nat \<lfloor>r\<rfloor> ! nat \<lfloor>c\<rfloor> = [])
    \<and> (\<not> isValidMove res \<longrightarrow>
         newState res = currentState gs
         \<and> error res = Some
             (if pid \<noteq> (if currentState gs = PLAYER_X_TURN then playerX gs else playerO gs)
              then (if currentState gs = PLAYER_X_TURN
                    then ''Not player X'' @ [CHR 0x27] @ ''s turn.''
                    else ''Not player O'' @ [CHR 0x27] @ ''s turn.'')
              else ''Invalid move: cell is occupied or out of bounds.''))"
proof -
  have xo: "PLAYER_O_TURN \<noteq> PLAYER_X_TURN" by (simp add: state_names)
  from assms(2) show ?thesis
  proof
    assume st: "currentState gs = PLAYER_X_TURN"
    show ?thesis
      unfolding transition_X_turn [OF assms(1) st]
      by (auto simp: st assms(3) outcome_def invalidResult_def validResult_def)
  next
    assume st: "currentState gs = PLAYER_O_TURN"
    show ?thesis
      unfolding transition_O_turn [OF assms(1) st]
      by (auto simp: st xo assms(3) outcome_def invalidResult_def validResult_def)
  qed
qed

text \<open>
  On a row index between 0 and 2 that is not whole, a move by the player whose turn it is
  gets no result: \<^verbatim>\<open>board[rowIndex]\<close> is \<^verbatim>\<open>undefined\<close> and the read of its
  \<^verbatim>\<open>colIndex\<close> throws.
\<close>

lemma transition_fractional_row:
  assumes "wellFormedBoard (board gs)"
    and "currentState gs = PLAYER_X_TURN \<or> currentState gs = PLAYER_O_TURN"
    and "pid = (if currentState gs = PLAYER_X_TURN then playerX gs else playerO gs)"
    and "0 \<le> r" "r \<le> 2" "0 \<le> c" "c \<le> 2" "of_int \<lfloor>r\<rfloor> \<noteq> r"
  shows "transition gs PLAYER_MOVE_ATTEMPTED
           \<lparr>move = Some \<lparr>rowIndex = r, colIndex = c\<rparr>, playerId = Some pid\<rparr> = Inl TypeError"
proof -
  have xo: "PLAYER_O_TURN \<noteq> PLAYER_X_TURN" by (simp add: state_names)
  from assms(2) show ?thesis
  proof
    assume st: "currentState gs = PLAYER_X_TURN"
    from assms(3-) show ?thesis
      unfolding transition_X_turn [OF assms(1) st] by (simp add: st)
  next
    assume st: "currentState gs = PLAYER_O_TURN"
    from assms(3-) show ?thesis
      unfolding transition_O_turn [OF assms(1) st] by (simp add: st xo)
  qed
qed

text \<open>
  Claim C4. In the initial game state it is X's turn and every cell is empty. For the
  move of player X with \<^verbatim>\<open>rowIndex\<close> 1.5 and \<^verbatim>\<open>colIndex\<close> 0, both indices lie
  between 0 and 2 and there is no empty cell \<^verbatim>\<open>board[1.5][0]\<close>, so the claim has
  \<^verbatim>\<open>transition\<close> return a result with \<^verbatim>\<open>isValidMove\<close> false and the
  occupied-or-out-of-bounds message. The code returns no result: it throws a TypeError.
\<close>

theorem transition_throws_on_fractional_row:
  "transition (getInitialGameState playerX_Id playerO_Id) PLAYER_MOVE_ATTEMPTED
     \<lparr>move = Some \<lparr>rowIndex = 3 / 2, colIndex = 0\<rparr>, playerId = Some playerX_Id\<rparr>
   = Inl TypeError"
proof -
  let ?gs = "getInitialGameState playerX_Id playerO_Id"
  have wf: "wellFormedBoard (board ?gs)"
    by (simp add: getInitialGameState_def wellFormedBoard_def)
  have st: "currentState ?gs = PLAYER_X_TURN" by (simp add: getInitialGameState_def)
  then have turn: "currentState ?gs = PLAYER_X_TURN \<or> currentState ?gs = PLAYER_O_TURN" ..
  have pid: "playerX_Id = (if currentState ?gs = PLAYER_X_TURN then playerX ?gs else playerO ?gs)"
    by (simp add: getInitialGameState_def)
  have frac: "of_int \<lfloor>3 / 2 :: jsNumber\<rfloor> \<noteq> (3 / 2 :: jsNumber)" by code_simp
  show ?thesis
    by (rule transition_fractional_row [OF wf turn pid _ _ _ _ frac]) simp_all
qed

text \<open>
  Claim C5. A valid move has whole indices between 0 and 2 that name an empty cell. The
  new board is a board of three rows of three cells that has the mover's symbol on that
  cell and the old contents on every other cell. The new state is the mover's winning
  state exactly when the mover's symbol fills a row, a column or a diagonal of the new
  board; failing that, it is the draw state exactly when the new board has no empty cell;
  failing both, it is the other player's turn.
\<close>

theorem transition_outcome:
  assumes "wellFormedBoard (board gs)"
    and "currentState gs = PLAYER_X_TURN \<or> currentState gs = PLAYER_O_TURN"
    and "transition gs PLAYER_MOVE_ATTEMPTED
           \<lparr>move = Some \<lparr>rowIndex = r, colIndex = c\<rparr>, playerId = Some pid\<rparr> = Inr res"
    and "isValidMove res"
    and "s = (if currentState gs = PLAYER_X_TURN then ''X'' else ''O'')"
  shows "\<exists>i j nb.
      r = of_nat i \<and> c = of_nat j \<and> i < 3 \<and> j < 3 \<and> board gs ! i ! j = []
    \<and> newBoard res = Some nb \<and> wellFormedBoard nb
    \<and> (\<forall>i' \<in> {0, 1, 2}. \<forall>j' \<in> {0, 1, 2}.
          nb ! i' ! j' = (if i' = i \<and> j' = j then s else board gs ! i' ! j'))
    \<and> (newState res = (if currentState gs = PLAYER_X_TURN then GAME_OVER_X_WINS else GAME_OVER_O_WINS)
         \<longleftrightarrow> threeInLine nb s)
    \<and> (\<not> threeInLine nb s \<longrightarrow> (newState res = GAME_OVER_DRAW \<longleftrightarrow> noEmptyCell nb))
    \<and> (\<not> threeInLine nb s \<and> \<not> noEmptyCell nb \<longrightarrow>
         newState res = (if currentState gs = PLAYER_X_TURN then PLAYER_O_TURN else PLAYER_X_TURN))"
proof -
  let ?i = "nat \<lfloor>r\<rfloor>" and ?j = "nat \<lfloor>c\<rfloor>"
  let ?nb = "placeSymbol (board gs) ?i ?j s"
  let ?win = "if currentState gs = PLAYER_X_TURN then GAME_OVER_X_WINS else GAME_OVER_O_WINS"
  let ?next = "if currentState gs = PLAYER_X_TURN then PLAYER_O_TURN else PLAYER_X_TURN"
  have xo: "PLAYER_O_TURN \<noteq> PLAYER_X_TURN" by (simp add: state_names)
  have facts: "0 \<le> r \<and> r \<le> 2 \<and> 0 \<le> c \<and> c \<le> 2 \<and> of_int \<lfloor>r\<rfloor> = r \<and> of_int \<lfloor>c\<rfloor> = c
      \<and> board gs ! ?i ! ?j = [] \<and> res = outcome ?nb s ?win ?next"
    using assms(2)
  proof
    assume st: "currentState gs = PLAYER_X_TURN"
    from assms(3,4) show ?thesis
      unfolding transition_X_turn [OF assms(1) st]
      by (auto simp: st assms(5) invalidResult_def split: if_splits)
  next
    assume st: "currentState gs = PLAYER_O_TURN"
    from assms(3,4) show ?thesis
      unfolding transition_O_turn [OF assms(1) st]
      by (auto simp: st xo assms(5) invalidResult_def split: if_splits)
  qed
  then have r: "0 \<le> r" "r \<le> 2" "of_int \<lfloor>r\<rfloor> = r" and c: "0 \<le> c" "c \<le> 2" "of_int \<lfloor>c\<rfloor> = c"
    and empty: "board gs ! ?i ! ?j = []" and res: "res = outcome ?nb s ?win ?next"
    by simp_all
  have i: "?i < 3" using r(1,2) by (rule in_range_index)
  have j: "?j < 3" using c(1,2) by (rule in_range_index)
  have ri: "r = of_nat ?i" using r(1,3) by (metis of_int_of_nat_eq of_nat_nat zero_le_floor)
  have cj: "c = of_nat ?j" using c(1,3) by (metis of_int_of_nat_eq of_nat_nat zero_le_floor)
  have wfn: "wellFormedBoard ?nb" by (rule placeSymbol_wf [OF assms(1)])
  have cells: "\<forall>i' \<in> {0, 1, 2}. \<forall>j' \<in> {0, 1, 2}.
      ?nb ! i' ! j' = (if i' = ?i \<and> j' = ?j then s else board gs ! i' ! j')"
    using placeSymbol_cells [OF assms(1) i j] by simp
  have nb: "newBoard res = Some ?nb" by (simp add: res outcome_def validResult_def)
  have win: "newState res = ?win \<longleftrightarrow> threeInLine ?nb s"
    by (auto simp: res outcome_def validResult_def state_names)
  have draw: "\<not> threeInLine ?nb s \<longrightarrow> (newState res = GAME_OVER_DRAW \<longleftrightarrow> noEmptyCell ?nb)"
    by (auto simp: res outcome_def validResult_def state_names)
  have turn: "\<not> threeInLine ?nb s \<and> \<not> noEmptyCell ?nb \<longrightarrow> newState res = ?next"
    by (simp add: res outcome_def validResult_def)
  from ri cj i j empty nb wfn cells win draw turn show ?thesis by blast
qed

theorem transition_outcome_witness:
  "wellFormedBoard (board (getInitialGameState ''DOGE'' ''PEPE''))
   \<and> isValidMove (projr (transition (getInitialGameState ''DOGE'' ''PEPE'') PLAYER_MOVE_ATTEMPTED
        \<lparr>move = Some \<lparr>rowIndex = 0, colIndex = 1\<rparr>, playerId = Some ''DOGE''\<rparr>))
   \<and> (\<exists>nb. newBoard (projr (transition (getInitialGameState ''DOGE'' ''PEPE'')
                PLAYER_MOVE_ATTEMPTED
                \<lparr>move = Some \<lparr>rowIndex = 0, colIndex = 1\<rparr>, playerId = Some ''DOGE''\<rparr>))
              = Some nb
          \<and> nb ! 0 ! 1 = ''X'' \<and> nb ! 1 ! 1 = [])"
proof -
  let ?gs = "getInitialGameState ''DOGE'' ''PEPE''"
  let ?t = "transition ?gs PLAYER_MOVE_ATTEMPTED
              \<lparr>move = Some \<lparr>rowIndex = 0, colIndex = 1\<rparr>, playerId = Some ''DOGE''\<rparr>"
  have wf: "wellFormedBoard (board ?gs)"
    by (simp add: getInitialGameState_def wellFormedBoard_def)
  have st: "currentState ?gs = PLAYER_X_TURN" by (simp add: getInitialGameState_def)
  then have turn: "currentState ?gs = PLAYER_X_TURN \<or> currentState ?gs = PLAYER_O_TURN" ..
  have "\<not> isl ?t" by code_simp
  then have res: "?t = Inr (projr ?t)" by simp
  have valid: "isValidMove (projr ?t)" by code_simp
  have sym: "''X'' = (if currentState ?gs = PLAYER_X_TURN then ''X'' else ''O'')"
    by (simp add: st)
  from transition_outcome [OF wf turn res valid sym]
  obtain i j nb where ij: "(0 :: jsNumber) = of_nat i" "(1 :: jsNumber) = of_nat j"
    and nb: "newBoard (projr ?t) = Some nb"
    and cells: "\<forall>i' \<in> {0, 1, 2}. \<forall>j' \<in> {0, 1, 2}.
          nb ! i' ! j' = (if i' = i \<and> j' = j then ''X'' else board ?gs ! i' ! j')"
    by blast
  from ij have i: "i = 0" and j: "j = 1" by simp_all
  from cells have "nb ! 0 ! 1 = ''X''" "nb ! 1 ! 1 = board ?gs ! 1 ! 1"
    by (simp_all add: i j)
  then have "nb ! 0 ! 1 = ''X'' \<and> nb ! 1 ! 1 = []" by (simp add: getInitialGameState_def)
  with wf valid nb show ?thesis by blast
qed

subsection \<open>The transition function on a terminal state\<close>

text \<open>
  Claim C6. In each of the three terminal states, every event (a non-empty event name and
  a move, with or without a player id) gets the result: not a valid move, the error
  \<^verbatim>\<open>Game is already over.\<close>, and the state as it was. An empty event name or a
  missing move does not reach the switch: the guard at the top of \<^verbatim>\<open>transition\<close>
  throws on them in every state.
\<close>

theorem transition_game_over:
  assumes "currentState gs = GAME_OVER_X_WINS \<or> currentState gs = GAME_OVER_O_WINS
           \<or> currentState gs = GAME_OVER_DRAW"
    and "event \<noteq> []"
  shows "transition gs event \<lparr>move = Some m, playerId = p\<rparr> =
           Inr \<lparr>newState = currentState gs, isValidMove = False, newBoard = None,
                error = Some ''Game is already over.''\<rparr>"
proof -
  from assms(1) have "currentState gs \<noteq> PLAYER_X_TURN" "currentState gs \<noteq> PLAYER_O_TURN"
    by (auto simp: state_names)
  with assms show ?thesis
    unfolding transition_def by (simp add: invalidResult_def Let_def)
qed

theorem transition_game_over_witness:
  "PLAYER_MOVE_ATTEMPTED \<noteq> []
   \<and> transition \<lparr>currentState = GAME_OVER_DRAW, board = [], playerX = ''DOGE'', playerO = ''PEPE''\<rparr>
       PLAYER_MOVE_ATTEMPTED \<lparr>move = Some \<lparr>rowIndex = 0, colIndex = 0\<rparr>, playerId = Some ''DOGE''\<rparr>
     = Inr \<lparr>newState = GAME_OVER_DRAW, isValidMove = False, newBoard = None,
            error = Some ''Game is already over.''\<rparr>"
proof -
  let ?gs = "\<lparr>currentState = GAME_OVER_DRAW, board = [], playerX = ''DOGE'', playerO = ''PEPE''\<rparr>"
  have over: "currentState ?gs = GAME_OVER_X_WINS \<or> currentState ?gs = GAME_OVER_O_WINS
              \<or> currentState ?gs = GAME_OVER_DRAW" by simp
  have ne: "PLAYER_MOVE_ATTEMPTED \<noteq> []" by (simp add: PLAYER_MOVE_ATTEMPTED_def)
  from transition_game_over [OF over ne, of "\<lparr>rowIndex = 0, colIndex = 0\<rparr>" "Some ''DOGE''"] ne
  show ?thesis by simp
qed


section \<open>Properties of the store model\<close>

lemma those_map_Some: "those (map Some xs) = Some xs"
  by (induction xs) simp_all

lemma those_eq_Some: "those xs = Some ys \<Longrightarrow> xs = map Some ys"
  by (induction xs arbitrary: ys) (auto split: option.splits)

lemma readRow_append: "readRow \<sigma> a = Some cells \<Longrightarrow> readRow (\<sigma> @ ext) a = Some cells"
  by (auto simp: readRow_def nth_append split: if_splits)

lemma readBoard_append:
  assumes "readBoard \<sigma> a = Some b"
  shows "readBoard (\<sigma> @ ext) a = Some b"
proof -
  from assms obtain rowRefs where a: "a < length \<sigma>" and obj: "\<sigma> ! a = BoardObject rowRefs"
    and rows: "those (map (readRow \<sigma>) rowRefs) = Some b"
    by (auto simp: readBoard_def split: if_splits heapObject.splits)
  from those_eq_Some [OF rows] have "map (readRow \<sigma>) rowRefs = map Some b" .
  then have "map (readRow (\<sigma> @ ext)) rowRefs = map Some b"
    by (induction rowRefs arbitrary: b) (auto simp: readRow_append)
  with a obj show ?thesis by (simp add: readBoard_def nth_append those_map_Some)
qed

lemma readState_append:
  "readState \<sigma> a = Some gs \<Longrightarrow> readState (\<sigma> @ ext) a = Some gs"
  by (auto simp: readState_def nth_append readBoard_append
           split: if_splits heapObject.splits option.splits)

lemma readRow_fresh:
  "i < length b \<Longrightarrow>
     readRow (\<sigma> @ map RowObject b @ rest) (length \<sigma> + i) = Some (b ! i)"
  by (simp add: readRow_def nth_append)

lemma map_readRow_fresh:
  "map (readRow (\<sigma> @ map RowObject b @ rest)) [length \<sigma> ..< length \<sigma> + length b] = map Some b"
  by (rule nth_equalityI) (simp_all add: readRow_fresh)

lemma readBoard_allocBoard:
  "readBoard (snd (allocBoard \<sigma> b)) (fst (allocBoard \<sigma> b)) = Some b"
  by (simp add: allocBoard_def readBoard_def nth_append map_readRow_fresh those_map_Some)

lemma writeCell_allocBoard:
  assumes "r < length b"
  shows "writeCell (snd (allocBoard \<sigma> b)) (fst (allocBoard \<sigma> b)) r c s
       = snd (allocBoard \<sigma> (placeSymbol b r c s))"
proof -
  have "(\<sigma> @ map RowObject b @ rest)[length \<sigma> + r := RowObject ((b ! r)[c := s])]
      = \<sigma> @ map RowObject (b[r := (b ! r)[c := s]]) @ rest" for rest
    using assms by (simp add: list_update_append map_update)
  with assms show ?thesis
    by (simp add: writeCell_def allocBoard_def placeSymbol_def nth_append)
qed

lemma fst_allocBoard_placeSymbol:
  "fst (allocBoard \<sigma> (placeSymbol b r c s)) = fst (allocBoard \<sigma> b)"
  by (simp add: allocBoard_def placeSymbol_def)

lemma readCellAt_row: "readCellAt b r c = Inr (Some x) \<Longrightarrow> nat \<lfloor>r\<rfloor> < length b"
  by (auto simp: readCellAt_def readCell_def arrayIndex_def split: if_splits option.splits)

lemma transition_by_branches:
  "transition gs event d =
     (if event = [] \<or> move d = None
      then Inl (Error ''Invalid arguments provided to FSM transition function.'')
      else if currentState gs = PLAYER_X_TURN then
        (if event = PLAYER_MOVE_ATTEMPTED
         then attemptMove (board gs) (currentState gs) (playerX gs)
                (''Not player X'' @ [CHR 0x27] @ ''s turn.'') ''X'' GAME_OVER_X_WINS PLAYER_O_TURN d
         else Inr (noTransition event (currentState gs)))
      else if currentState gs = PLAYER_O_TURN then
        (if event = PLAYER_MOVE_ATTEMPTED
         then attemptMove (board gs) (currentState gs) (playerO gs)
                (''Not player O'' @ [CHR 0x27] @ ''s turn.'') ''O'' GAME_OVER_O_WINS PLAYER_X_TURN d
         else Inr (noTransition event (currentState gs)))
      else if currentState gs = GAME_OVER_X_WINS \<or> currentState gs = GAME_OVER_O_WINS
              \<or> currentState gs = GAME_OVER_DRAW
      then Inr (invalidResult (currentState gs) ''Game is already over.'')
      else Inr (noTransition event (currentState gs)))"
  unfolding transition_def attemptMove_def Let_def by simp

lemma readOutcome_invalid:
  "readOutcome \<sigma> (Inr (invalidResultS st msg)) = Some (Inr (invalidResult st msg))"
  by (simp add: readOutcome_def invalidResultS_def invalidResult_def)

lemma readOutcome_valid:
  "readBoard \<sigma> ref = Some nb \<Longrightarrow>
     readOutcome \<sigma> (Inr (validResultS st ref)) = Some (Inr (validResult st nb))"
  by (simp add: readOutcome_def validResultS_def validResult_def)

lemma readOutcome_error: "readOutcome \<sigma> (Inl e) = Some (Inl e)"
  by (simp add: readOutcome_def)

lemma attemptMoveS_unfold:
  assumes rb: "readBoard \<sigma> boardRef = Some b"
  shows "attemptMoveS \<sigma> st boardRef turnPlayer wrongTurn playerSymbol winState nextTurn d =
     (let r = rowIndex (the (move d)); c = colIndex (the (move d))
      in
      if playerId d \<noteq> Some turnPlayer then (Inr (invalidResultS st wrongTurn), \<sigma>)
      else if r < 0 \<or> r > 2 \<or> c < 0 \<or> c > 2
      then (Inr (invalidResultS st ''Invalid move: cell is occupied or out of bounds.''), \<sigma>)
      else
        (case readCellAt b r c of
           Inl e \<Rightarrow> (Inl e, \<sigma>)
         | Inr cell \<Rightarrow>
             if cell \<noteq> Some []
             then (Inr (invalidResultS st ''Invalid move: cell is occupied or out of bounds.''), \<sigma>)
             else
               let nb = placeSymbol b (nat \<lfloor>r\<rfloor>) (nat \<lfloor>c\<rfloor>) playerSymbol;
                   ref = fst (allocBoard \<sigma> nb);
                   \<sigma>2 = snd (allocBoard \<sigma> nb)
               in (case checkWin nb playerSymbol of
                     Inl e \<Rightarrow> (Inl e, \<sigma>2)
                   | Inr won \<Rightarrow>
                       if won then (Inr (validResultS winState ref), \<sigma>2)
                       else if checkDraw nb then (Inr (validResultS GAME_OVER_DRAW ref), \<sigma>2)
                       else (Inr (validResultS nextTurn ref), \<sigma>2))))"
proof (cases "readCellAt b (rowIndex (the (move d))) (colIndex (the (move d))) = Inr (Some [])")
  case False
  then show ?thesis
    unfolding attemptMoveS_def Let_def rb option.case
    by (cases "readCellAt b (rowIndex (the (move d))) (colIndex (the (move d)))")
       simp_all
next
  case True
  let ?r = "nat \<lfloor>rowIndex (the (move d))\<rfloor>" and ?c = "nat \<lfloor>colIndex (the (move d))\<rfloor>"
  let ?nb = "placeSymbol b ?r ?c playerSymbol"
  from True have r: "?r < length b" by (rule readCellAt_row)
  have w: "writeCell (snd (allocBoard \<sigma> b)) (fst (allocBoard \<sigma> b)) ?r ?c playerSymbol
         = snd (allocBoard \<sigma> ?nb)"
    by (rule writeCell_allocBoard [OF r])
  have f: "fst (allocBoard \<sigma> b) = fst (allocBoard \<sigma> ?nb)"
    by (simp only: fst_allocBoard_placeSymbol)
  have rd2: "readBoard (snd (allocBoard \<sigma> ?nb)) (fst (allocBoard \<sigma> ?nb)) = Some ?nb"
    by (rule readBoard_allocBoard)
  show ?thesis
    unfolding attemptMoveS_def Let_def rb option.case True sum.case cloneBoardS_def
      case_prod_beta w
    unfolding f rd2 option.case
    by simp
qed

lemma attemptMoveS_refines:
  assumes rb: "readBoard \<sigma> boardRef = Some b"
  shows "(\<exists>ext. snd (attemptMoveS \<sigma> st boardRef turnPlayer wrongTurn playerSymbol winState nextTurn d)
             = \<sigma> @ ext)
    \<and> readOutcome
        (snd (attemptMoveS \<sigma> st boardRef turnPlayer wrongTurn playerSymbol winState nextTurn d))
        (fst (attemptMoveS \<sigma> st boardRef turnPlayer wrongTurn playerSymbol winState nextTurn d))
        = Some (attemptMove b st turnPlayer wrongTurn playerSymbol winState nextTurn d)"
proof -
  let ?r = "nat \<lfloor>rowIndex (the (move d))\<rfloor>" and ?c = "nat \<lfloor>colIndex (the (move d))\<rfloor>"
  let ?nb = "placeSymbol b ?r ?c playerSymbol"
  have s2: "\<exists>ext. snd (allocBoard \<sigma> ?nb) = \<sigma> @ ext" by (simp add: allocBoard_def)
  have val: "readOutcome (snd (allocBoard \<sigma> ?nb)) (Inr (validResultS s (fst (allocBoard \<sigma> ?nb))))
      = Some (Inr (validResult s ?nb))" for s
    using readBoard_allocBoard by (rule readOutcome_valid)
  show ?thesis
    unfolding attemptMoveS_unfold [OF rb] attemptMove_def Let_def cloneBoard_same
    by (simp add: readOutcome_invalid readOutcome_error val s2 split: sum.splits)
qed

lemma transitionS_refines:
  assumes "readState \<sigma> gsRef = Some gs"
  shows "(\<exists>ext. snd (transitionS \<sigma> gsRef event d) = \<sigma> @ ext)
    \<and> readOutcome (snd (transitionS \<sigma> gsRef event d)) (fst (transitionS \<sigma> gsRef event d))
        = Some (transition gs event d)"
proof -
  from assms obtain st boardRef px po b where
    ref: "gsRef < length \<sigma>" and obj: "\<sigma> ! gsRef = StateObject st boardRef px po"
    and rb: "readBoard \<sigma> boardRef = Some b"
    and gs: "gs = \<lparr>currentState = st, board = b, playerX = px, playerO = po\<rparr>"
    by (auto simp: readState_def split: if_splits heapObject.splits option.splits)
  note branch = attemptMoveS_refines [OF rb]
  show ?thesis
    unfolding transitionS_def transition_by_branches
    by (simp add: ref obj gs branch readOutcome_invalid readOutcome_error noTransition_def)
qed


lemma readOutcome_append:
  "readOutcome \<sigma> out = Some x \<Longrightarrow> readOutcome (\<sigma> @ ext) out = Some x"
  by (auto simp: readOutcome_def readBoard_append split: sum.splits option.splits)

text \<open>
  Claim C9. Take a store that holds a game state with its board, and call \<^verbatim>\<open>transition\<close>
  twice on that state with the same event, the second call on the store the first one left.
  Both calls give the same result, the one the function of the values gives, with the same
  new board cell by cell. No object that was in the store before the calls has changed
  after either, and the game state read back from the store is the one read before.
\<close>

theorem transition_deterministic_no_mutation:
  assumes "readState \<sigma> gsRef = Some gs"
    and "transitionS \<sigma> gsRef event d = (out1, \<sigma>1)"
    and "transitionS \<sigma>1 gsRef event d = (out2, \<sigma>2)"
  shows "readOutcome \<sigma>2 out1 = Some (transition gs event d)
       \<and> readOutcome \<sigma>2 out2 = Some (transition gs event d)
       \<and> take (length \<sigma>) \<sigma>1 = \<sigma> \<and> take (length \<sigma>) \<sigma>2 = \<sigma>
       \<and> readState \<sigma>1 gsRef = Some gs \<and> readState \<sigma>2 gsRef = Some gs"
proof -
  from transitionS_refines [OF assms(1), of event d] assms(2)
  obtain ext1 where s1: "\<sigma>1 = \<sigma> @ ext1"
    and o1: "readOutcome \<sigma>1 out1 = Some (transition gs event d)" by auto
  from assms(1) have gs1: "readState \<sigma>1 gsRef = Some gs"
    unfolding s1 by (rule readState_append)
  from transitionS_refines [OF gs1, of event d] assms(3)
  obtain ext2 where s2: "\<sigma>2 = \<sigma>1 @ ext2"
    and o2: "readOutcome \<sigma>2 out2 = Some (transition gs event d)" by auto
  from gs1 have gs2: "readState \<sigma>2 gsRef = Some gs"
    unfolding s2 by (rule readState_append)
  from o1 have o1': "readOutcome \<sigma>2 out1 = Some (transition gs event d)"
    unfolding s2 by (rule readOutcome_append)
  from o1' o2 gs1 gs2 show ?thesis by (simp add: s1 s2)
qed

theorem transition_deterministic_no_mutation_witness:
  "readState sampleStore 4
     = Some \<lparr>currentState = ''PLAYER_X_TURN'',
             board = [[''X'', [], []], [[], ''O'', []], [[], [], []]],
             playerX = ''DOGE'', playerO = ''PEPE''\<rparr>
   \<and> readOutcome
        (snd (transitionS (snd (transitionS sampleStore 4 PLAYER_MOVE_ATTEMPTED sampleMove)) 4
                PLAYER_MOVE_ATTEMPTED sampleMove))
        (fst (transitionS sampleStore 4 PLAYER_MOVE_ATTEMPTED sampleMove))
     = readOutcome
        (snd (transitionS (snd (transitionS sampleStore 4 PLAYER_MOVE_ATTEMPTED sampleMove)) 4
                PLAYER_MOVE_ATTEMPTED sampleMove))
        (fst (transitionS (snd (transitionS sampleStore 4 PLAYER_MOVE_ATTEMPTED sampleMove)) 4
                PLAYER_MOVE_ATTEMPTED sampleMove))
   \<and> take (length sampleStore)
        (snd (transitionS (snd (transitionS sampleStore 4 PLAYER_MOVE_ATTEMPTED sampleMove)) 4
                PLAYER_MOVE_ATTEMPTED sampleMove))
     = sampleStore"
proof -
  let ?gs = "\<lparr>currentState = ''PLAYER_X_TURN'',
              board = [[''X'', [], []], [[], ''O'', []], [[], [], []]],
              playerX = ''DOGE'', playerO = ''PEPE''\<rparr>"
  let ?t1 = "transitionS sampleStore 4 PLAYER_MOVE_ATTEMPTED sampleMove"
  let ?t2 = "transitionS (snd ?t1) 4 PLAYER_MOVE_ATTEMPTED sampleMove"
  have h1: "readState sampleStore 4 = Some ?gs" by code_simp
  have h2: "?t1 = (fst ?t1, snd ?t1)" by simp
  have h3: "?t2 = (fst ?t2, snd ?t2)" by simp
  from transition_deterministic_no_mutation [OF h1 h2 h3] h1
  show ?thesis by simp
qed


section \<open>Properties of the hash chain\<close>


lemma verifyHashChainFrom_append:
  "verifyHashChainFrom sha256 numberToString prev (xs @ ys) \<longleftrightarrow>
     verifyHashChainFrom sha256 numberToString prev xs
     \<and> verifyHashChainFrom sha256 numberToString (if xs = [] then prev else currentEntryChainHash (last xs)) ys"
  by (induction xs arbitrary: prev) auto



section \<open>Properties of the replay verifier\<close>

lemma replayMoves_append:
  "replayMoves sha256 numberToString s (xs @ ys) =
     (case replayMoves sha256 numberToString s xs of
        Inl e \<Rightarrow> Inl e
      | Inr None \<Rightarrow> Inr None
      | Inr (Some s') \<Rightarrow> replayMoves sha256 numberToString s' ys)"
proof (induction xs arbitrary: s)
  case Nil
  show ?case by simp
next
  case (Cons x xs)
  show ?case
    by (simp add: Cons.IH split: sum.splits option.splits)
qed

text \<open>
  While the entries are accepted, the loop of the verifier holds the server state of the
  specification: it advances to the state and the board of each result.
\<close>

lemma replayMoves_accepts:
  "(\<forall>j<length xs. specAccepted sha256 numberToString (specStateAfter s (take j xs)) (xs ! j))
     \<Longrightarrow> replayMoves sha256 numberToString s xs = Inr (Some (specStateAfter s xs))"
proof (induction xs arbitrary: s)
  case Nil
  show ?case by simp
next
  case (Cons x xs)
  from Cons.prems
  have "specAccepted sha256 numberToString (specStateAfter s (take 0 (x # xs))) ((x # xs) ! 0)"
    by blast
  then have first: "specAccepted sha256 numberToString s x" by simp
  then obtain res nb where
    tr: "transition s PLAYER_MOVE_ATTEMPTED (specMove x) = Inr res"
    and ok: "isValidMove res" "newState res = fsmState x" "newBoard res = Some nb"
      "sha256 (getCanonicalString numberToString (boardJson nb))
        = sha256 (getCanonicalString numberToString (boardJson (boardState x)))"
    by (auto simp: specAccepted_def split: sum.splits option.splits)
  let ?s' = "s\<lparr>currentState := newState res, board := nb\<rparr>"
  have step: "specStateAfter s (x # ys) = specStateAfter ?s' ys" for ys
    by (simp add: tr ok(3))
  have rest: "\<forall>j<length xs.
      specAccepted sha256 numberToString (specStateAfter ?s' (take j xs)) (xs ! j)"
  proof (intro allI impI)
    fix j assume "j < length xs"
    then have "Suc j < length (x # xs)" by simp
    from Cons.prems [rule_format, OF this]
    show "specAccepted sha256 numberToString (specStateAfter ?s' (take j xs)) (xs ! j)"
      by (simp add: tr ok(3))
  qed
  have "replayMoves sha256 numberToString s (x # xs) = replayMoves sha256 numberToString ?s' xs"
    using tr ok by (simp add: specMove_def)
  also have "\<dots> = Inr (Some (specStateAfter ?s' xs))" using rest by (rule Cons.IH)
  finally show ?case by (simp only: step)
qed

lemma replayMoves_reject:
  assumes "transition s PLAYER_MOVE_ATTEMPTED (specMove entry) = Inr res"
    and "\<not> isValidMove res \<or> newState res \<noteq> fsmState entry
         \<or> sha256 (getCanonicalString numberToString (boardJson (the (newBoard res))))
             \<noteq> sha256 (getCanonicalString numberToString (boardJson (boardState entry)))"
  shows "replayMoves sha256 numberToString s (entry # rest) = Inr None"
proof (cases "isValidMove res")
  case False
  with assms(1) show ?thesis by (simp add: specMove_def)
next
  case True
  with transition_result_shape [OF assms(1)] obtain nb where "newBoard res = Some nb" by blast
  with assms True show ?thesis by (auto simp: specMove_def)
qed

text \<open>
  When every validated move of a non-empty log is accepted, the verdict is the final
  check against the server state of the specification.
\<close>

lemma verifyFsmGameplay_accepts:
  assumes "validatedMoves = filter (\<lambda>entry. eventType entry = ''PLAYER_MOVE_VALIDATED'') entries"
    and "\<forall>j<length validatedMoves.
           specAccepted sha256 numberToString
             (specStateAfter (getInitialGameState px po) (take j validatedMoves))
             (validatedMoves ! j)"
    and "entries \<noteq> []"
  shows "verifyFsmGameplay sha256 numberToString entries px po
       = Inr (startsWith (eventType (last entries)) ''GAME_''
              \<and> fsmState (last entries)
                  = currentState (specStateAfter (getInitialGameState px po) validatedMoves))"
  using replayMoves_accepts [OF assms(2)] assms(3)
  unfolding verifyFsmGameplay_def Let_def assms(1) [symmetric] by simp

text \<open>
  Claim C3. \<^verbatim>\<open>verifyFsmGameplay\<close> replays the entries of type
  \<^verbatim>\<open>PLAYER_MOVE_VALIDATED\<close>, in the order of the log, from the initial game state,
  advancing the server state to each result. When the entries before the \<open>i\<close>-th of them
  are accepted, each at the server state its predecessors lead to, and the server's
  \<^verbatim>\<open>transition\<close> at the state they lead to finds the \<open>i\<close>-th move invalid, or gives a
  state other than the entry's \<^verbatim>\<open>fsmState\<close>, or a board whose hashed canonical string
  differs from that of the entry's \<^verbatim>\<open>boardState\<close>, the verifier returns false, whatever
  follows in the log.
\<close>

theorem verifyFsmGameplay_rejects:
  assumes "validatedMoves = filter (\<lambda>entry. eventType entry = ''PLAYER_MOVE_VALIDATED'') entries"
    and "i < length validatedMoves"
    and "\<forall>j<i. specAccepted sha256 numberToString
                  (specStateAfter (getInitialGameState px po) (take j validatedMoves))
                  (validatedMoves ! j)"
    and "transition (specStateAfter (getInitialGameState px po) (take i validatedMoves))
           PLAYER_MOVE_ATTEMPTED (specMove (validatedMoves ! i)) = Inr res"
    and "\<not> isValidMove res
         \<or> newState res \<noteq> fsmState (validatedMoves ! i)
         \<or> sha256 (getCanonicalString numberToString (boardJson (the (newBoard res))))
             \<noteq> sha256 (getCanonicalString numberToString
                         (boardJson (boardState (validatedMoves ! i))))"
  shows "verifyFsmGameplay sha256 numberToString entries px po = Inr False"
proof -
  let ?init = "getInitialGameState px po"
  let ?before = "take i validatedMoves"
  from assms(2) have split: "validatedMoves
      = ?before @ validatedMoves ! i # drop (Suc i) validatedMoves"
    by (simp add: id_take_nth_drop [symmetric])
  have "\<forall>j<length ?before.
      specAccepted sha256 numberToString (specStateAfter ?init (take j ?before)) (?before ! j)"
    using assms(2,3) by (simp add: min_absorb2)
  then have before: "replayMoves sha256 numberToString ?init ?before
      = Inr (Some (specStateAfter ?init ?before))"
    by (rule replayMoves_accepts)
  have "replayMoves sha256 numberToString ?init validatedMoves
      = replayMoves sha256 numberToString (specStateAfter ?init ?before)
          (validatedMoves ! i # drop (Suc i) validatedMoves)"
    by (subst split) (simp add: replayMoves_append before)
  also have "\<dots> = Inr None"
    using assms(4,5) by (rule replayMoves_reject)
  finally show ?thesis
    unfolding verifyFsmGameplay_def Let_def assms(1) [symmetric] by simp
qed

theorem verifyFsmGameplay_rejects_witness:
  "specAccepted lengthHash wholeNumberText (getInitialGameState ''DOGE'' ''PEPE'')
     (filter (\<lambda>entry. eventType entry = ''PLAYER_MOVE_VALIDATED'') doubleMoveLog ! 0)
   \<and> \<not> isValidMove (projr (transition
         (specStateAfter (getInitialGameState ''DOGE'' ''PEPE'')
            (take 1 (filter (\<lambda>entry. eventType entry = ''PLAYER_MOVE_VALIDATED'') doubleMoveLog)))
         PLAYER_MOVE_ATTEMPTED
         (specMove (filter (\<lambda>entry. eventType entry = ''PLAYER_MOVE_VALIDATED'') doubleMoveLog ! 1))))
   \<and> verifyFsmGameplay lengthHash wholeNumberText doubleMoveLog ''DOGE'' ''PEPE'' = Inr False"
proof -
  let ?vs = "filter (\<lambda>entry. eventType entry = ''PLAYER_MOVE_VALIDATED'') doubleMoveLog"
  let ?init = "getInitialGameState ''DOGE'' ''PEPE''"
  let ?t = "transition (specStateAfter ?init (take 1 ?vs)) PLAYER_MOVE_ATTEMPTED
              (specMove (?vs ! 1))"
  have h2: "1 < length ?vs" by code_simp
  have first: "specAccepted lengthHash wholeNumberText ?init (?vs ! 0)" by code_simp
  then have h3: "\<forall>j<1. specAccepted lengthHash wholeNumberText
                    (specStateAfter ?init (take j ?vs)) (?vs ! j)" by simp
  have "\<not> isl ?t" by code_simp
  then have h4: "?t = Inr (projr ?t)" by simp
  have invalid: "\<not> isValidMove (projr ?t)" by code_simp
  then have h5: "\<not> isValidMove (projr ?t)
         \<or> newState (projr ?t) \<noteq> fsmState (?vs ! 1)
         \<or> lengthHash (getCanonicalString wholeNumberText (boardJson (the (newBoard (projr ?t)))))
             \<noteq> lengthHash (getCanonicalString wholeNumberText (boardJson (boardState (?vs ! 1))))"
    by blast
  from verifyFsmGameplay_rejects [OF refl h2 h3 h4 h5] first invalid show ?thesis by blast
qed

text \<open>
  Claim C10. On the empty log \<^verbatim>\<open>verifyFsmGameplay\<close> does not return: the read of the
  last entry's \<^verbatim>\<open>eventType\<close> throws a TypeError.
\<close>

theorem verifyFsmGameplay_empty_log:
  "verifyFsmGameplay sha256 numberToString [] playerX_Id playerO_Id = Inl TypeError"
  by (simp add: verifyFsmGameplay_def)

section \<open>The client's log\<close>

subsection \<open>Sessions in which every digest resolves before the next click\<close>

lemma calculateEntryHash_ignores_own_hash:
  "calculateEntryHash sha256 numberToString (e\<lparr>currentEntryChainHash := h\<rparr>)
     = calculateEntryHash sha256 numberToString e"
  by (simp add: calculateEntryHash_def getObjectToHash_def)

lemma resume_other:
  assumes "chainInv sha256 numberToString px po cs"
    and "eventType e \<noteq> ''PLAYER_MOVE_VALIDATED''"
    and "previousEntryChainHash e = latestEntryChainHash cs"
    and "fsmState e = currentState (currentGameState cs)"
  shows "honestInv sha256 numberToString px po (addLogEntryResume sha256 numberToString e cs)"
  using assms
  unfolding honestInv_def chainInv_def addLogEntryResume_def Let_def
  by (simp add: verifyHashChainFrom_append calculateEntryHash_ignores_own_hash)

lemma resume_validated:
  assumes inv: "chainInv sha256 numberToString px po cs"
    and tr: "transition (currentGameState cs) PLAYER_MOVE_ATTEMPTED
               \<lparr>move = Some m, playerId = Some pid\<rparr> = Inr res"
    and valid: "isValidMove res" and nb: "newBoard res = Some nb"
    and cs1: "cs1 = cs\<lparr>currentGameState :=
                        (currentGameState cs)\<lparr>currentState := newState res, board := nb\<rparr>\<rparr>"
  shows "honestInv sha256 numberToString px po
           (addLogEntryResume sha256 numberToString
              (newLogEntry now ''PLAYER_MOVE_VALIDATED'' (MoveValidatedData pid m symbolPlaced) cs1)
              cs1)"
  using inv
  unfolding honestInv_def chainInv_def addLogEntryResume_def newLogEntry_def Let_def cs1
  by (simp add: verifyHashChainFrom_append calculateEntryHash_def getObjectToHash_def
        replayMoves_append tr valid nb cloneBoard_same)

lemma honestInv_suspended:
  "honestInv sha256 numberToString px po (cs\<lparr>suspended := x\<rparr>)
     = honestInv sha256 numberToString px po cs"
  by (simp add: honestInv_def chainInv_def)

lemma chainInv_suspended:
  "chainInv sha256 numberToString px po (cs\<lparr>suspended := x\<rparr>)
     = chainInv sha256 numberToString px po cs"
  by (simp add: chainInv_def)

lemma digestResolved_none:
  "suspended cs = [] \<Longrightarrow> digestResolved sha256 numberToString now px po 0 cs = cs"
  by (simp add: digestResolved_def)

lemma digestResolved_single:
  "suspended cs = [(e, cont)] \<Longrightarrow>
     digestResolved sha256 numberToString now px po 0 cs =
       (case cont of
          ThenRender \<Rightarrow> render now px po (addLogEntryResume sha256 numberToString e (cs\<lparr>suspended := []\<rparr>))
        | ThenSubmit \<Rightarrow> addLogEntryResume sha256 numberToString e (cs\<lparr>suspended := []\<rparr>))"
  by (simp add: digestResolved_def Let_def)

lemma render_cases:
  "render now px po cs = cs
   \<or> (\<exists>ty d. (ty = ''GAME_DRAWN'' \<or> ty = ''GAME_WON'')
          \<and> render now px po cs = addLogEntryBegin now ty d ThenSubmit cs)"
  unfolding render_def Let_def by (cases "currentState (currentGameState cs) = GAME_OVER_DRAW") auto

text \<open>
  From a state that satisfies the invariant and has no suspended call, \<^verbatim>\<open>render\<close>
  followed by the resolution of the digest it may have started gives such a state again.
\<close>

lemma render_settles:
  assumes inv: "honestInv sha256 numberToString px po cs" and none: "suspended cs = []"
  shows "honestInv sha256 numberToString px po
           (digestResolved sha256 numberToString later px po 0 (render now px po cs))
       \<and> suspended (digestResolved sha256 numberToString later px po 0 (render now px po cs)) = []"
  using render_cases [of now px po cs]
proof
  assume "render now px po cs = cs"
  with inv none show ?thesis by (simp add: digestResolved_none)
next
  assume "\<exists>ty d. (ty = ''GAME_DRAWN'' \<or> ty = ''GAME_WON'')
            \<and> render now px po cs = addLogEntryBegin now ty d ThenSubmit cs"
  then obtain ty d where ty: "ty = ''GAME_DRAWN'' \<or> ty = ''GAME_WON''"
    and r: "render now px po cs = addLogEntryBegin now ty d ThenSubmit cs" by blast
  let ?e = "newLogEntry now ty d cs"
  have susp: "suspended (render now px po cs) = [(?e, ThenSubmit)]"
    by (simp add: r addLogEntryBegin_def none)
  have same: "(render now px po cs)\<lparr>suspended := []\<rparr> = cs"
    by (simp add: r addLogEntryBegin_def none [symmetric])
  from inv have c: "chainInv sha256 numberToString px po cs" by (simp add: honestInv_def)
  from ty have "eventType ?e \<noteq> ''PLAYER_MOVE_VALIDATED''" by (auto simp: newLogEntry_def)
  then have "honestInv sha256 numberToString px po (addLogEntryResume sha256 numberToString ?e cs)"
    by (rule resume_other [OF c]) (simp_all add: newLogEntry_def)
  moreover have "suspended (addLogEntryResume sha256 numberToString ?e cs) = []"
    by (simp add: addLogEntryResume_def Let_def none)
  ultimately show ?thesis
    by (simp add: digestResolved_single [OF susp] same)
qed

lemma click_settles:
  assumes inv: "honestInv sha256 numberToString px po cs" and none: "suspended cs = []"
    and click: "handleCellClick now px po r c cs = Inr cs1"
  shows "honestInv sha256 numberToString px po
           (digestResolved sha256 numberToString later px po 0
              (digestResolved sha256 numberToString later px po 0 cs1))
       \<and> suspended (digestResolved sha256 numberToString later px po 0
              (digestResolved sha256 numberToString later px po 0 cs1)) = []"
proof (cases "startsWith (currentState (currentGameState cs)) ''GAME_OVER''")
  case True
  with click have "cs1 = cs" by (simp add: handleCellClick_def)
  with inv none show ?thesis by (simp add: digestResolved_none)
next
  case over: False
  from inv have c: "chainInv sha256 numberToString px po cs" by (simp add: honestInv_def)
  let ?pid = "if currentState (currentGameState cs) = PLAYER_X_TURN then px else po"
  let ?sym = "if currentState (currentGameState cs) = PLAYER_X_TURN then ''X'' else ''O''"
  let ?m = "\<lparr>rowIndex = r, colIndex = c\<rparr>"
  from click over obtain res where
    tr: "transition (currentGameState cs) PLAYER_MOVE_ATTEMPTED
           \<lparr>move = Some ?m, playerId = Some ?pid\<rparr> = Inr res"
    by (auto simp: handleCellClick_def Let_def split: sum.splits)
  show ?thesis
  proof (cases "isValidMove res")
    case True
    with transition_result_shape [OF tr] obtain nb where nb: "newBoard res = Some nb" by blast
    let ?cs' = "cs\<lparr>currentGameState :=
                     (currentGameState cs)\<lparr>currentState := newState res, board := nb\<rparr>\<rparr>"
    let ?e = "newLogEntry now ''PLAYER_MOVE_VALIDATED'' (MoveValidatedData ?pid ?m ?sym) ?cs'"
    from click over tr True nb have cs1: "cs1 = addLogEntryBegin now ''PLAYER_MOVE_VALIDATED''
        (MoveValidatedData ?pid ?m ?sym) ThenRender ?cs'"
      by (simp add: handleCellClick_def Let_def)
    have susp: "suspended cs1 = [(?e, ThenRender)]"
      by (simp add: cs1 addLogEntryBegin_def none)
    have same: "cs1\<lparr>suspended := []\<rparr> = ?cs'"
      by (simp add: cs1 addLogEntryBegin_def none [symmetric])
    have h: "honestInv sha256 numberToString px po (addLogEntryResume sha256 numberToString ?e ?cs')"
      by (rule resume_validated [OF c tr True nb refl])
    have n: "suspended (addLogEntryResume sha256 numberToString ?e ?cs') = []"
      by (simp add: addLogEntryResume_def Let_def none)
    have first: "digestResolved sha256 numberToString later px po 0 cs1
        = render later px po (addLogEntryResume sha256 numberToString ?e ?cs')"
      by (simp add: digestResolved_single [OF susp] same)
    show ?thesis unfolding first by (rule render_settles [OF h n])
  next
    case False
    with transition_result_shape [OF tr] have keep: "newState res = currentState (currentGameState cs)"
      by blast
    let ?data = "MoveRejectedData ?pid ?m (case error res of Some msg \<Rightarrow> msg | None \<Rightarrow> [])"
    let ?e = "newLogEntry now ''PLAYER_MOVE_REJECTED'' ?data cs"
    have unchanged: "cs\<lparr>currentGameState := (currentGameState cs)\<lparr>currentState := newState res\<rparr>\<rparr> = cs"
      by (simp add: keep)
    from click over tr False have cs1: "cs1 = addLogEntryBegin now ''PLAYER_MOVE_REJECTED'' ?data ThenRender cs"
      by (simp add: handleCellClick_def Let_def unchanged)
    have susp: "suspended cs1 = [(?e, ThenRender)]"
      by (simp add: cs1 addLogEntryBegin_def none)
    have same: "cs1\<lparr>suspended := []\<rparr> = cs"
      by (simp add: cs1 addLogEntryBegin_def none [symmetric])
    have h: "honestInv sha256 numberToString px po (addLogEntryResume sha256 numberToString ?e cs)"
      by (rule resume_other [OF c]) (simp_all add: newLogEntry_def)
    have n: "suspended (addLogEntryResume sha256 numberToString ?e cs) = []"
      by (simp add: addLogEntryResume_def Let_def none)
    have first: "digestResolved sha256 numberToString later px po 0 cs1
        = render later px po (addLogEntryResume sha256 numberToString ?e cs)"
      by (simp add: digestResolved_single [OF susp] same)
    show ?thesis unfolding first by (rule render_settles [OF h n])
  qed
qed

lemma startGame_settles:
  "honestInv sha256 numberToString px po
     (digestResolved sha256 numberToString later px po 0
        (digestResolved sha256 numberToString later px po 0 (startGame now px po)))
   \<and> suspended (digestResolved sha256 numberToString later px po 0
        (digestResolved sha256 numberToString later px po 0 (startGame now px po))) = []"
proof -
  let ?cs0 = "\<lparr>currentGameState = getInitialGameState px po, gameLog = [],
              latestEntryChainHash = zeroHash, sequenceNumber = 0, suspended = []\<rparr>"
  let ?e = "newLogEntry now ''GAME_CREATED'' (GameCreatedData px po) ?cs0"
  have c: "chainInv sha256 numberToString px po ?cs0" by (simp add: chainInv_def)
  have susp: "suspended (startGame now px po) = [(?e, ThenRender)]"
    by (simp add: startGame_def addLogEntryBegin_def)
  have same: "(startGame now px po)\<lparr>suspended := []\<rparr> = ?cs0"
    by (simp add: startGame_def addLogEntryBegin_def)
  have h: "honestInv sha256 numberToString px po (addLogEntryResume sha256 numberToString ?e ?cs0)"
    by (rule resume_other [OF c]) (simp_all add: newLogEntry_def)
  have n: "suspended (addLogEntryResume sha256 numberToString ?e ?cs0) = []"
    by (simp add: addLogEntryResume_def Let_def)
  have first: "digestResolved sha256 numberToString later px po 0 (startGame now px po)
      = render later px po (addLogEntryResume sha256 numberToString ?e ?cs0)"
    by (simp add: digestResolved_single [OF susp] same)
  show ?thesis unfolding first by (rule render_settles [OF h n])
qed

lemma oneAtATime_inv:
  "honestInv sha256 numberToString px po cs \<Longrightarrow> suspended cs = [] \<Longrightarrow>
   runClient sha256 numberToString px po (oneAtATime clicks) cs = Inr cs' \<Longrightarrow>
   honestInv sha256 numberToString px po cs' \<and> suspended cs' = []"
proof (induction clicks arbitrary: cs)
  case Nil
  then show ?case by simp
next
  case (Cons click clicks)
  obtain now later r c where click: "click = (now, later, r, c)" by (cases click) auto
  from Cons.prems(3) obtain cs1 where
    c1: "handleCellClick now px po r c cs = Inr cs1"
    and rest: "runClient sha256 numberToString px po (oneAtATime clicks)
                 (digestResolved sha256 numberToString later px po 0
                    (digestResolved sha256 numberToString later px po 0 cs1)) = Inr cs'"
    by (auto simp: click settled_def split: sum.splits)
  from click_settles [OF Cons.prems(1,2) c1, of later] rest show ?case
    using Cons.IH by blast
qed

text \<open>
  In a session where every digest resolves before the next click, a log that ends with a
  \<^verbatim>\<open>GAME_WON\<close> or \<^verbatim>\<open>GAME_DRAWN\<close> entry passes both verifiers.
\<close>

lemma one_at_a_time_play_verifies:
  assumes "runClient sha256 numberToString px po (settled later @ oneAtATime clicks)
             (startGame now px po) = Inr cs"
    and "eventType (last (gameLog cs)) = ''GAME_WON''
         \<or> eventType (last (gameLog cs)) = ''GAME_DRAWN''"
  shows "verifyHashChain sha256 numberToString (gameLog cs)
       \<and> verifyFsmGameplay sha256 numberToString (gameLog cs) px po = Inr True"
proof -
  from assms(1) have run: "runClient sha256 numberToString px po (oneAtATime clicks)
      (digestResolved sha256 numberToString later px po 0
         (digestResolved sha256 numberToString later px po 0 (startGame now px po))) = Inr cs"
    by (simp add: settled_def)
  from startGame_settles [of sha256 numberToString px po later now] run
  have inv: "honestInv sha256 numberToString px po cs"
    using oneAtATime_inv by blast
  from assms(2) have "startsWith (eventType (last (gameLog cs))) ''GAME_''"
    by (auto simp: startsWith_def)
  with inv show ?thesis
    unfolding honestInv_def chainInv_def verifyHashChain_def verifyFsmGameplay_def Let_def
    by simp
qed

subsection \<open>A session in which a click arrives before a digest has resolved\<close>

lemmas client_defs =
  raceLog_def raceRun_def raceSchedule_def settled_def startGame_def handleCellClick_def
  digestResolved_def addLogEntryBegin_def addLogEntryResume_def newLogEntry_def render_def
  getInitialGameState_def startsWith_def Let_def
  transition_def readCellAt_def arrayIndex_def readCell_def placeSymbol_def cloneBoard_def
  checkWin_def winConditions_def checkDraw_def validResult_def invalidResult_def
  PLAYER_MOVE_ATTEMPTED_def state_names

lemma race_run_returns: "\<not> isl (raceRun sha256 numberToString)"
  by (simp add: client_defs)

lemma race_event_types:
  "map eventType (raceLog sha256 numberToString) =
     [''GAME_CREATED'', ''PLAYER_MOVE_VALIDATED'', ''PLAYER_MOVE_VALIDATED'',
      ''PLAYER_MOVE_VALIDATED'', ''PLAYER_MOVE_VALIDATED'', ''PLAYER_MOVE_VALIDATED'',
      ''GAME_WON'']"
  by (simp add: client_defs)

lemma race_sequences:
  "map sequence (raceLog sha256 numberToString) = [0, 1, 1, 3, 4, 5, 6]"
  by (simp add: client_defs)

lemma race_link:
  "previousEntryChainHash (raceLog sha256 numberToString ! 2)
     = currentEntryChainHash (raceLog sha256 numberToString ! 0)"
  by (simp add: client_defs)

lemma race_chain:
  "verifyHashChain sha256 numberToString (raceLog sha256 numberToString)
     \<longleftrightarrow> currentEntryChainHash (raceLog sha256 numberToString ! 1)
          = currentEntryChainHash (raceLog sha256 numberToString ! 0)"
  by (simp add: client_defs verifyHashChain_def zeroHash_def calculateEntryHash_def
        getObjectToHash_def eq_commute)

lemma race_contents_differ:
  "getCanonicalString numberToString (getObjectToHash (raceLog sha256 numberToString ! 1))
     \<noteq> getCanonicalString numberToString (getObjectToHash (raceLog sha256 numberToString ! 0))"
  by (simp add: client_defs getObjectToHash_def boardJson_def stringifyString_def
        escapeChar_def dquote_def backslash_def)

lemma race_replay:
  "verifyFsmGameplay sha256 numberToString (raceLog sha256 numberToString) ''DOGE'' ''PEPE''
     = Inr True"
  by (simp add: client_defs verifyFsmGameplay_def)

lemma race_entry_hashes:
  "currentEntryChainHash (raceLog sha256 numberToString ! 0)
     = sha256 (getCanonicalString numberToString
                 (getObjectToHash (raceLog sha256 numberToString ! 0)))"
  "currentEntryChainHash (raceLog sha256 numberToString ! 1)
     = sha256 (getCanonicalString numberToString
                 (getObjectToHash (raceLog sha256 numberToString ! 1)))"
  by (simp_all add: client_defs calculateEntryHash_def getObjectToHash_def)

text \<open>
  Claim C7. The log of the session \<open>raceSchedule\<close> is written by the client alone: the
  \<^verbatim>\<open>GAME_CREATED\<close> entry of \<^verbatim>\<open>startGame\<close>, one \<^verbatim>\<open>PLAYER_MOVE_VALIDATED\<close> entry
  through \<^verbatim>\<open>addLogEntry\<close> for each of five valid moves, and the \<^verbatim>\<open>GAME_WON\<close> entry.
  The second click arrived while the call of \<^verbatim>\<open>addLogEntry\<close> for the first was
  suspended at its \<^verbatim>\<open>await\<close>, so both entries were built from the same
  \<^verbatim>\<open>sequenceNumber\<close> and the same \<^verbatim>\<open>latestEntryChainHash\<close>: the sequence numbers
  are 0, 1, 1, 3, 4, 5, 6 and the third entry names the hash of the first. The replay
  verifier accepts the log, and \<^verbatim>\<open>verifyHashChain\<close> accepts it only if the hash function
  gives the same value on the contents of the first two entries, which are different
  strings. The claim has both verifiers accept every log of honest play.
\<close>

theorem addLogEntry_race_breaks_chain:
  "\<not> isl (raceRun sha256 numberToString)
   \<and> map eventType (raceLog sha256 numberToString) =
       [''GAME_CREATED'', ''PLAYER_MOVE_VALIDATED'', ''PLAYER_MOVE_VALIDATED'',
        ''PLAYER_MOVE_VALIDATED'', ''PLAYER_MOVE_VALIDATED'', ''PLAYER_MOVE_VALIDATED'',
        ''GAME_WON'']
   \<and> map sequence (raceLog sha256 numberToString) = [0, 1, 1, 3, 4, 5, 6]
   \<and> previousEntryChainHash (raceLog sha256 numberToString ! 2)
       = currentEntryChainHash (raceLog sha256 numberToString ! 0)
   \<and> verifyFsmGameplay sha256 numberToString (raceLog sha256 numberToString) ''DOGE'' ''PEPE''
       = Inr True
   \<and> getCanonicalString numberToString (getObjectToHash (raceLog sha256 numberToString ! 1))
       \<noteq> getCanonicalString numberToString (getObjectToHash (raceLog sha256 numberToString ! 0))
   \<and> (verifyHashChain sha256 numberToString (raceLog sha256 numberToString)
        \<longleftrightarrow> sha256 (getCanonicalString numberToString
                       (getObjectToHash (raceLog sha256 numberToString ! 1)))
             = sha256 (getCanonicalString numberToString
                         (getObjectToHash (raceLog sha256 numberToString ! 0))))"
proof -
  have chain: "verifyHashChain sha256 numberToString (raceLog sha256 numberToString)
        \<longleftrightarrow> sha256 (getCanonicalString numberToString
                       (getObjectToHash (raceLog sha256 numberToString ! 1)))
             = sha256 (getCanonicalString numberToString
                         (getObjectToHash (raceLog sha256 numberToString ! 0)))"
    unfolding race_chain race_entry_hashes ..
  from race_run_returns race_event_types race_sequences race_link race_replay
    race_contents_differ chain
  show ?thesis by blast
qed

text \<open>With the stand-in hash the chain of that log does not verify.\<close>

lemma race_chain_sample:
  "\<not> verifyHashChain lengthHash wholeNumberText (raceLog lengthHash wholeNumberText)"
  by code_simp

subsection \<open>The log after the page has loaded\<close>

text \<open>
  Claim C1. The log the client holds once \<^verbatim>\<open>startGame\<close> has finished has one entry, of
  type \<^verbatim>\<open>GAME_CREATED\<close>, which is neither \<^verbatim>\<open>GAME_WON\<close> nor \<^verbatim>\<open>GAME_DRAWN\<close>; it
  passes \<^verbatim>\<open>verifyHashChain\<close> and \<^verbatim>\<open>verifyFsmGameplay\<close> returns true on it, where the
  claim has it return false. The test on the last entry is \<^verbatim>\<open>startsWith('GAME_')\<close>.
\<close>

theorem verifyFsmGameplay_accepts_game_created:
  "eventType (last (gameLog (digestResolved sha256 numberToString later playerX_Id playerO_Id 0
                               (startGame now playerX_Id playerO_Id))))
     = ''GAME_CREATED''
   \<and> verifyHashChain sha256 numberToString
        (gameLog (digestResolved sha256 numberToString later playerX_Id playerO_Id 0
                    (startGame now playerX_Id playerO_Id)))
   \<and> verifyFsmGameplay sha256 numberToString
        (gameLog (digestResolved sha256 numberToString later playerX_Id playerO_Id 0
                    (startGame now playerX_Id playerO_Id)))
        playerX_Id playerO_Id = Inr True"
  by (simp add: startGame_def digestResolved_def addLogEntryBegin_def addLogEntryResume_def
        newLogEntry_def render_def Let_def verifyHashChain_def verifyFsmGameplay_def
        getInitialGameState_def startsWith_def calculateEntryHash_def getObjectToHash_def
        PLAYER_X_TURN_def)

end
